theory Spec2Isabelle
  imports Main
begin

section \<open>Data model\<close>

text \<open>
  Column descriptors, expressions and plan nodes of the analyzer. The rule
  \<open>resolveStar\<close> and its helper \<open>expandStars\<close> are translated from the source of
  package \<^verbatim>\<open>analyzer\<close>; the plan and expression packages they call are not part of
  the sources at hand and are modelled from the specification.
\<close>

datatype SqlType = Null | Int32 | Int64 | Float64 | Text | LongText | Boolean

datatype Value = VNull | VInt int | VText string | VBool bool

record Column =
  Name :: string
  Type :: SqlType
  Source :: string
  Nullable :: bool

datatype error =
    TableNotFound string
  | DatabaseNotFound string
  | ColumnNotFound string
  | AmbiguousColumn string
  | RuleFailure string

text \<open>
  Expressions: \<open>Star tbl\<close> carries the qualifying table (\<open>''''\<close> when the star is
  unqualified, as \<^verbatim>\<open>s.Table == ""\<close> in the source); \<open>GetField\<close> carries index,
  type, table, name and nullability in the argument order of
  \<^verbatim>\<open>expression.NewGetFieldWithTable\<close>.
\<close>

datatype Expression =
    Star string
  | GetField nat SqlType string string bool
  | UnresolvedColumn string
  | UnresolvedQualifiedColumn string string
  | Alias string Expression
  | Literal Value SqlType
  | Equals Expression Expression
  | And Expression Expression

text \<open>
  A table handle of the storage collaborator: its name, full schema and rows, whether it
  declares the pushdown capability, and the projection and filters pushed into it
  (\<open>None\<close>: no projection pushed).
\<close>

record Table =
  tname :: string
  tschema :: "Column list"
  trows :: "Value list list"
  pushdown :: bool
  projection :: "string list option"
  filters :: "Expression list"

datatype Node =
    UnresolvedTable string
  | ResolvedTable Table
  | Project "Expression list" Node
  | Filter Expression Node
  | GroupBy "Expression list" "Expression list" Node
  | Limit nat Node
  | InnerJoin Node Node Expression
  | CrossJoin Node Node
  | NaturalJoin Node Node
  | TableAlias string Node
  | Describe Node
  | DecoratedNode string Node

subsection \<open>Resolution predicate\<close>

text \<open>
  Modelled from the spec: \<^verbatim>\<open>Expression.Resolved()\<close> is missing from the sources.
  An expression is resolved iff it carries no unbound name reference: stars and
  unresolved columns are unresolved, \<open>GetField\<close> and literals are resolved, composite
  expressions are resolved iff their operands are.
\<close>

fun expr_resolved :: "Expression \<Rightarrow> bool" where
  "expr_resolved (Star tbl) = False"
| "expr_resolved (GetField i ty tbl nm nl) = True"
| "expr_resolved (UnresolvedColumn nm) = False"
| "expr_resolved (UnresolvedQualifiedColumn tbl nm) = False"
| "expr_resolved (Alias nm e) = expr_resolved e"
| "expr_resolved (Literal v ty) = True"
| "expr_resolved (Equals a b) = (expr_resolved a \<and> expr_resolved b)"
| "expr_resolved (And a b) = (expr_resolved a \<and> expr_resolved b)"

text \<open>
  Modelled from the spec: \<^verbatim>\<open>Node.Resolved()\<close> is missing from the sources.
  "True iff the node and all descendants carry no unresolved references"; a natural join
  is an unqualified join that still has to be expanded, so it is never resolved.
\<close>

fun Resolved :: "Node \<Rightarrow> bool" where
  "Resolved (UnresolvedTable nm) = False"
| "Resolved (ResolvedTable t) = True"
| "Resolved (Project ps c) = (Resolved c \<and> list_all expr_resolved ps)"
| "Resolved (Filter e c) = (Resolved c \<and> expr_resolved e)"
| "Resolved (GroupBy agg grp c) =
     (Resolved c \<and> list_all expr_resolved agg \<and> list_all expr_resolved grp)"
| "Resolved (Limit k c) = Resolved c"
| "Resolved (InnerJoin l r e) = (Resolved l \<and> Resolved r \<and> expr_resolved e)"
| "Resolved (CrossJoin l r) = (Resolved l \<and> Resolved r)"
| "Resolved (NaturalJoin l r) = False"
| "Resolved (TableAlias a c) = Resolved c"
| "Resolved (Describe c) = Resolved c"
| "Resolved (DecoratedNode d c) = Resolved c"

subsection \<open>Schemas\<close>

text \<open>
  Modelled from the spec: the column an expression contributes to the schema of a
  projection is missing from the sources. A \<open>GetField\<close> contributes the descriptor it
  records; an alias renames the column of its inner expression and has no source table;
  expressions that are not column references get a column without name or source.
\<close>

fun expr_type :: "Expression \<Rightarrow> SqlType" where
  "expr_type (GetField i ty tbl nm nl) = ty"
| "expr_type (Alias nm e) = expr_type e"
| "expr_type (Literal v ty) = ty"
| "expr_type (Equals a b) = Boolean"
| "expr_type (And a b) = Boolean"
| "expr_type e = Null"

fun expr_nullable :: "Expression \<Rightarrow> bool" where
  "expr_nullable (GetField i ty tbl nm nl) = nl"
| "expr_nullable (Alias nm e) = expr_nullable e"
| "expr_nullable (Literal v ty) = (v = VNull)"
| "expr_nullable (Equals a b) = (expr_nullable a \<or> expr_nullable b)"
| "expr_nullable (And a b) = (expr_nullable a \<or> expr_nullable b)"
| "expr_nullable e = True"

fun expr_column :: "Expression \<Rightarrow> Column" where
  "expr_column (GetField i ty tbl nm nl) =
     \<lparr>Name = nm, Type = ty, Source = tbl, Nullable = nl\<rparr>"
| "expr_column (Alias nm e) =
     \<lparr>Name = nm, Type = expr_type e, Source = [], Nullable = expr_nullable e\<rparr>"
| "expr_column e =
     \<lparr>Name = [], Type = expr_type e, Source = [], Nullable = expr_nullable e\<rparr>"

text \<open>
  Modelled from the spec: \<^verbatim>\<open>Table.Schema()\<close> of the storage collaborator. A table
  narrowed by \<^verbatim>\<open>WithProjection\<close> exposes the named columns of its full schema, in the
  order of the projection list.
\<close>

fun findCol :: "Column list \<Rightarrow> string \<Rightarrow> (nat \<times> Column) option" where
  "findCol [] nm = None"
| "findCol (c # cs) nm =
     (if Name c = nm then Some (0, c)
      else (case findCol cs nm of None \<Rightarrow> None | Some (i, c') \<Rightarrow> Some (Suc i, c')))"

definition project_columns :: "Column list \<Rightarrow> string list \<Rightarrow> Column list" where
  "project_columns sch names =
     concat (map (\<lambda>nm. case findCol sch nm of None \<Rightarrow> [] | Some (i, c) \<Rightarrow> [c]) names)"

definition Table_Schema :: "Table \<Rightarrow> Column list" where
  "Table_Schema t =
     (case projection t of None \<Rightarrow> tschema t | Some names \<Rightarrow> project_columns (tschema t) names)"

text \<open>
  Modelled from the spec: \<^verbatim>\<open>Node.Schema()\<close> is missing from the sources. The schema
  is derived bottom-up: a table exposes its own columns, a projection or grouping one
  column per expression, a join the concatenation of both sides, a table alias the
  columns of its child with the alias as source table (qualified references through an
  alias resolve in \<^verbatim>\<open>TestReorderProjectionUnresolvedChild\<close>), a describe node the two
  columns of its listing, and every other unary node the schema of its child. A node that
  is not resolved reports the empty schema.
\<close>

fun node_schema :: "Node \<Rightarrow> Column list" where
  "node_schema (UnresolvedTable nm) = []"
| "node_schema (ResolvedTable t) = Table_Schema t"
| "node_schema (Project ps c) = map expr_column ps"
| "node_schema (Filter e c) = node_schema c"
| "node_schema (GroupBy agg grp c) = map expr_column agg"
| "node_schema (Limit k c) = node_schema c"
| "node_schema (InnerJoin l r e) = node_schema l @ node_schema r"
| "node_schema (CrossJoin l r) = node_schema l @ node_schema r"
| "node_schema (NaturalJoin l r) = []"
| "node_schema (TableAlias a c) = map (\<lambda>col. col\<lparr>Source := a\<rparr>) (node_schema c)"
| "node_schema (Describe c) =
     [\<lparr>Name = ''name'', Type = LongText, Source = [], Nullable = False\<rparr>,
      \<lparr>Name = ''type'', Type = LongText, Source = [], Nullable = False\<rparr>]"
| "node_schema (DecoratedNode d c) = node_schema c"

definition Schema :: "Node \<Rightarrow> Column list" where
  "Schema n = (if Resolved n then node_schema n else [])"

text \<open>
  The resolved reference to the column at a position of a schema, as
  \<^verbatim>\<open>expression.NewGetFieldWithTable(i, col.Type, col.Source, col.Name, col.Nullable)\<close>
  builds it.
\<close>

definition field_of :: "nat \<times> Column \<Rightarrow> Expression" where
  "field_of p = GetField (fst p) (Type (snd p)) (Source (snd p)) (Name (snd p)) (Nullable (snd p))"

subsection \<open>Bottom-up tree rewriting\<close>

text \<open>
  Modelled from the spec: \<^verbatim>\<open>plan.TransformUp\<close> is missing from the sources. It is the
  generic bottom-up traversal: the children of a node are rewritten first, left to right,
  the node is rebuilt over the rewritten children, and the function is applied to the
  rebuilt node. The first error aborts the traversal.
\<close>

fun TransformUp :: "Node \<Rightarrow> (Node \<Rightarrow> error + Node) \<Rightarrow> error + Node" where
  "TransformUp (UnresolvedTable nm) f = f (UnresolvedTable nm)"
| "TransformUp (ResolvedTable t) f = f (ResolvedTable t)"
| "TransformUp (Project ps c) f =
     (case TransformUp c f of Inl err \<Rightarrow> Inl err | Inr c' \<Rightarrow> f (Project ps c'))"
| "TransformUp (Filter e c) f =
     (case TransformUp c f of Inl err \<Rightarrow> Inl err | Inr c' \<Rightarrow> f (Filter e c'))"
| "TransformUp (GroupBy agg grp c) f =
     (case TransformUp c f of Inl err \<Rightarrow> Inl err | Inr c' \<Rightarrow> f (GroupBy agg grp c'))"
| "TransformUp (Limit k c) f =
     (case TransformUp c f of Inl err \<Rightarrow> Inl err | Inr c' \<Rightarrow> f (Limit k c'))"
| "TransformUp (InnerJoin l r e) f =
     (case TransformUp l f of Inl err \<Rightarrow> Inl err
      | Inr l' \<Rightarrow> (case TransformUp r f of Inl err \<Rightarrow> Inl err
                  | Inr r' \<Rightarrow> f (InnerJoin l' r' e)))"
| "TransformUp (CrossJoin l r) f =
     (case TransformUp l f of Inl err \<Rightarrow> Inl err
      | Inr l' \<Rightarrow> (case TransformUp r f of Inl err \<Rightarrow> Inl err
                  | Inr r' \<Rightarrow> f (CrossJoin l' r')))"
| "TransformUp (NaturalJoin l r) f =
     (case TransformUp l f of Inl err \<Rightarrow> Inl err
      | Inr l' \<Rightarrow> (case TransformUp r f of Inl err \<Rightarrow> Inl err
                  | Inr r' \<Rightarrow> f (NaturalJoin l' r')))"
| "TransformUp (TableAlias a c) f =
     (case TransformUp c f of Inl err \<Rightarrow> Inl err | Inr c' \<Rightarrow> f (TableAlias a c'))"
| "TransformUp (Describe c) f =
     (case TransformUp c f of Inl err \<Rightarrow> Inl err | Inr c' \<Rightarrow> f (Describe c'))"
| "TransformUp (DecoratedNode d c) f =
     (case TransformUp c f of Inl err \<Rightarrow> Inl err | Inr c' \<Rightarrow> f (DecoratedNode d c'))"

section \<open>Star resolution\<close>

text \<open>
  The inner loop of \<^verbatim>\<open>expandStars\<close>: \<^verbatim>\<open>for i, col := range schema\<close> appends a
  \<open>GetField\<close> for every column the star selects. \<open>i\<close> is the index of the head of the
  remaining schema.
\<close>

fun starFields :: "string \<Rightarrow> nat \<Rightarrow> Column list \<Rightarrow> Expression list \<Rightarrow> Expression list" where
  "starFields tbl i [] exprs = exprs"
| "starFields tbl i (col # cols) exprs =
     starFields tbl (Suc i) cols
       (if tbl = [] \<or> tbl = Source col
        then exprs @ [GetField i (Type col) (Source col) (Name col) (Nullable col)]
        else exprs)"

text \<open>
  The outer loop of \<^verbatim>\<open>expandStars\<close>, with the accumulator \<^verbatim>\<open>expressions\<close>. Only an
  expression that is itself a star is expanded (the type assertion
  \<^verbatim>\<open>e.(*expression.Star)\<close>); a qualified star selecting no column returns
  \<^verbatim>\<open>ErrTableNotFound\<close> at once.
\<close>

fun expandStars_loop ::
  "Expression list \<Rightarrow> Column list \<Rightarrow> Expression list \<Rightarrow> error + Expression list" where
  "expandStars_loop [] schema expressions = Inr expressions"
| "expandStars_loop (Star tbl # es) schema expressions =
     (let exprs = starFields tbl 0 schema []
      in if length exprs = 0 \<and> tbl \<noteq> [] then Inl (TableNotFound tbl)
         else expandStars_loop es schema (expressions @ exprs))"
| "expandStars_loop (e # es) schema expressions =
     expandStars_loop es schema (expressions @ [e])"

definition expandStars :: "Expression list \<Rightarrow> Column list \<Rightarrow> error + Expression list" where
  "expandStars exprs schema = expandStars_loop exprs schema []"

text \<open>
  The function \<^verbatim>\<open>resolveStar\<close> hands to \<^verbatim>\<open>plan.TransformUp\<close>, and the rule itself.
\<close>

definition resolveStar_node :: "Node \<Rightarrow> error + Node" where
  "resolveStar_node n =
     (if Resolved n then Inr n
      else (case n of
          Project projections child \<Rightarrow>
            (if \<not> Resolved child then Inr n
             else (case expandStars projections (Schema child) of
                 Inl err \<Rightarrow> Inl err
               | Inr expressions \<Rightarrow> Inr (Project expressions child)))
        | GroupBy aggregate grouping child \<Rightarrow>
            (if \<not> Resolved child then Inr n
             else (case expandStars aggregate (Schema child) of
                 Inl err \<Rightarrow> Inl err
               | Inr expressions \<Rightarrow> Inr (GroupBy expressions grouping child)))
        | _ \<Rightarrow> Inr n))"

definition resolveStar :: "Node \<Rightarrow> error + Node" where
  "resolveStar n = TransformUp n resolveStar_node"

section \<open>Rule engine\<close>

text \<open>
  Modelled from the spec: the rule engine (\<^verbatim>\<open>Analyzer\<close>, \<^verbatim>\<open>Batch\<close>, \<^verbatim>\<open>Rule\<close>,
  \<^verbatim>\<open>Analyze\<close>) is missing from the sources; only its tests are at hand. A scope is
  the chain of enclosing plan contexts, innermost first. A rule is a named function from
  scope and tree to a new tree or an error; the context it needs is fixed when the rule
  is built. A batch is an ordered sequence of rules with a maximum iteration count.
\<close>

type_synonym Scope = "Node list"

type_synonym RuleFunc = "Scope \<Rightarrow> Node \<Rightarrow> error + Node"

record Rule =
  rule_name :: string
  Apply :: RuleFunc

record Batch =
  Desc :: string
  Iterations :: nat
  Rules :: "Rule list"

type_synonym Analyzer = "Batch list"

text \<open>
  Modelled from the spec: one full pass of a batch applies every rule, in order, to the
  current tree, and records whether any rule changed the tree (structural equality). A
  rule returning an error aborts the pass with that error.
\<close>

fun evalOnce :: "Rule list \<Rightarrow> Scope \<Rightarrow> Node \<Rightarrow> bool \<Rightarrow> error + (Node \<times> bool)" where
  "evalOnce [] scope n changed = Inr (n, changed)"
| "evalOnce (r # rs) scope n changed =
     (case Apply r scope n of
        Inl err \<Rightarrow> Inl err
      | Inr n' \<Rightarrow> evalOnce rs scope n' (changed \<or> n' \<noteq> n))"

text \<open>
  Modelled from the spec: "repeat up to \<open>batch.maxIterations\<close> times: apply every rule
  in the batch, in order, to the current tree; if no rule in a full pass changes the tree,
  stop early; otherwise continue. If a batch reaches its iteration ceiling without
  reaching a fixed point, the engine does not fail: it returns the tree from the last
  iteration." The second component counts the passes performed; the first argument after
  the scope is the number of passes still allowed.
\<close>

fun Eval_loop :: "Rule list \<Rightarrow> Scope \<Rightarrow> nat \<Rightarrow> Node \<Rightarrow> nat \<Rightarrow> (error + Node) \<times> nat" where
  "Eval_loop rs scope 0 n passes = (Inr n, passes)"
| "Eval_loop rs scope (Suc k) n passes =
     (case evalOnce rs scope n False of
        Inl err \<Rightarrow> (Inl err, Suc passes)
      | Inr (n', changed) \<Rightarrow>
          if changed then Eval_loop rs scope k n' (Suc passes) else (Inr n', Suc passes))"

definition Eval :: "Batch \<Rightarrow> Scope \<Rightarrow> Node \<Rightarrow> nat \<Rightarrow> (error + Node) \<times> nat" where
  "Eval b scope n passes = Eval_loop (Rules b) scope (Iterations b) n passes"

text \<open>
  Modelled from the spec: \<^verbatim>\<open>Analyze(context, root, scope)\<close> runs the batches in
  declared order; the first error of a rule aborts the analysis with that error ("the
  engine returns the error, not a partial tree": the node that the Go function returns
  beside an error is not part of the result here). \<open>Analyze_run\<close> also reports the
  number of passes performed.
\<close>

fun Analyze_batches :: "Batch list \<Rightarrow> Scope \<Rightarrow> Node \<Rightarrow> nat \<Rightarrow> (error + Node) \<times> nat" where
  "Analyze_batches [] scope n passes = (Inr n, passes)"
| "Analyze_batches (b # bs) scope n passes =
     (case Eval b scope n passes of
        (Inl err, passes') \<Rightarrow> (Inl err, passes')
      | (Inr n', passes') \<Rightarrow> Analyze_batches bs scope n' passes')"

definition Analyze_run :: "Analyzer \<Rightarrow> Scope \<Rightarrow> Node \<Rightarrow> (error + Node) \<times> nat" where
  "Analyze_run a scope n = Analyze_batches a scope n 0"

definition Analyze :: "Analyzer \<Rightarrow> Scope \<Rightarrow> Node \<Rightarrow> error + Node" where
  "Analyze a scope n = fst (Analyze_run a scope n)"

definition Analyze_passes :: "Analyzer \<Rightarrow> Scope \<Rightarrow> Node \<Rightarrow> nat" where
  "Analyze_passes a scope n = snd (Analyze_run a scope n)"

text \<open>The tree after exactly \<open>k\<close> full passes of a rule list, or the first error.\<close>

fun passes_result :: "Rule list \<Rightarrow> Scope \<Rightarrow> nat \<Rightarrow> Node \<Rightarrow> error + Node" where
  "passes_result rs scope 0 n = Inr n"
| "passes_result rs scope (Suc k) n =
     (case evalOnce rs scope n False of
        Inl err \<Rightarrow> Inl err
      | Inr (n', changed) \<Rightarrow> passes_result rs scope k n')"

text \<open>
  A batch reaches its iteration ceiling without reaching a fixed point: each of the \<open>k\<close>
  passes it is allowed succeeds and changes the tree.
\<close>

fun reaches_ceiling :: "Rule list \<Rightarrow> Scope \<Rightarrow> nat \<Rightarrow> Node \<Rightarrow> bool" where
  "reaches_ceiling rs scope 0 n = True"
| "reaches_ceiling rs scope (Suc k) n =
     (case evalOnce rs scope n False of
        Inl err \<Rightarrow> False
      | Inr (n', changed) \<Rightarrow> changed \<and> reaches_ceiling rs scope k n')"

section \<open>Table and column resolution\<close>

text \<open>
  Modelled from the spec: the catalog collaborator, as a lookup service from database
  name to table name to table handle, and the context of an analysis with its current
  database.
\<close>

type_synonym Database = "(string \<times> Table) list"

type_synonym Catalog = "(string \<times> Database) list"

record Context =
  catalog :: Catalog
  currentDB :: string

definition LookupTable :: "Context \<Rightarrow> string \<Rightarrow> error + Table" where
  "LookupTable ctx nm =
     (case map_of (catalog ctx) (currentDB ctx) of
        None \<Rightarrow> Inl (DatabaseNotFound (currentDB ctx))
      | Some db \<Rightarrow> (case map_of db nm of None \<Rightarrow> Inl (TableNotFound nm) | Some t \<Rightarrow> Inr t))"

text \<open>
  Modelled from the spec: the table resolution rule is missing from the sources. It
  replaces \<open>UnresolvedTable name\<close> by a \<open>ResolvedTable\<close> bound to the handle the catalog
  provides for the name in the current database, and fails with \<open>TableNotFound\<close> if the
  name does not exist there.
\<close>

definition resolveTables_node :: "Context \<Rightarrow> Node \<Rightarrow> error + Node" where
  "resolveTables_node ctx n =
     (case n of
        UnresolvedTable nm \<Rightarrow>
          (case LookupTable ctx nm of Inl err \<Rightarrow> Inl err | Inr t \<Rightarrow> Inr (ResolvedTable t))
      | _ \<Rightarrow> Inr n)"

definition resolveTables :: "Context \<Rightarrow> RuleFunc" where
  "resolveTables ctx scope n = TransformUp n (resolveTables_node ctx)"

text \<open>
  Modelled from the spec: the column resolution rule is missing from the sources. A
  reference matches a column of a schema when the names are equal and, for a qualified
  reference, the column's source table equals the qualifier (\<open>tbl = []\<close> for an
  unqualified reference). A reference with matches in the immediate child's schema
  becomes the field of the matching position; more than one match of an unqualified
  reference fails with \<open>AmbiguousColumn\<close>; zero matches in the child's schema and in every
  enclosing scope fail with \<open>ColumnNotFound\<close>. The spec gives no index for a reference
  that only an enclosing scope satisfies: such a reference is kept as it is.
\<close>

definition column_matches :: "string \<Rightarrow> string \<Rightarrow> Column list \<Rightarrow> (nat \<times> Column) list" where
  "column_matches tbl nm schema =
     filter (\<lambda>(i, col). Name col = nm \<and> (tbl = [] \<or> Source col = tbl)) (enumerate 0 schema)"

definition resolve_ref ::
  "Column list \<Rightarrow> Column list list \<Rightarrow> string \<Rightarrow> string \<Rightarrow> Expression \<Rightarrow> error + Expression" where
  "resolve_ref schema scopes tbl nm e =
     (case column_matches tbl nm schema of
        [] \<Rightarrow> if list_ex (\<lambda>s. column_matches tbl nm s \<noteq> []) scopes then Inr e
              else Inl (ColumnNotFound nm)
      | [m] \<Rightarrow> Inr (field_of m)
      | m # m' # ms \<Rightarrow> if tbl = [] then Inl (AmbiguousColumn nm) else Inr (field_of m))"

fun resolve_expr :: "Column list \<Rightarrow> Column list list \<Rightarrow> Expression \<Rightarrow> error + Expression" where
  "resolve_expr schema scopes (UnresolvedColumn nm) =
     resolve_ref schema scopes [] nm (UnresolvedColumn nm)"
| "resolve_expr schema scopes (UnresolvedQualifiedColumn tbl nm) =
     resolve_ref schema scopes tbl nm (UnresolvedQualifiedColumn tbl nm)"
| "resolve_expr schema scopes (Alias a e) =
     (case resolve_expr schema scopes e of Inl err \<Rightarrow> Inl err | Inr e' \<Rightarrow> Inr (Alias a e'))"
| "resolve_expr schema scopes (Equals a b) =
     (case resolve_expr schema scopes a of
        Inl err \<Rightarrow> Inl err
      | Inr a' \<Rightarrow> (case resolve_expr schema scopes b of
                     Inl err \<Rightarrow> Inl err | Inr b' \<Rightarrow> Inr (Equals a' b')))"
| "resolve_expr schema scopes (And a b) =
     (case resolve_expr schema scopes a of
        Inl err \<Rightarrow> Inl err
      | Inr a' \<Rightarrow> (case resolve_expr schema scopes b of
                     Inl err \<Rightarrow> Inl err | Inr b' \<Rightarrow> Inr (And a' b')))"
| "resolve_expr schema scopes e = Inr e"

fun resolve_exprs ::
  "Column list \<Rightarrow> Column list list \<Rightarrow> Expression list \<Rightarrow> error + Expression list" where
  "resolve_exprs schema scopes [] = Inr []"
| "resolve_exprs schema scopes (e # es) =
     (case resolve_expr schema scopes e of
        Inl err \<Rightarrow> Inl err
      | Inr e' \<Rightarrow> (case resolve_exprs schema scopes es of
                     Inl err \<Rightarrow> Inl err | Inr es' \<Rightarrow> Inr (e' # es')))"

text \<open>
  Modelled from the spec: the rule at one node. The expressions a node owns are resolved against the schema of
  its immediate child (for a join, the concatenated schema of both sides); a node whose
  immediate child is not yet resolved is returned unchanged.
\<close>

definition resolveColumns_node :: "Scope \<Rightarrow> Node \<Rightarrow> error + Node" where
  "resolveColumns_node scope n =
     (case n of
        Project ps c \<Rightarrow>
          (if \<not> Resolved c then Inr n
           else (case resolve_exprs (Schema c) (map Schema scope) ps of
                   Inl err \<Rightarrow> Inl err | Inr ps' \<Rightarrow> Inr (Project ps' c)))
      | Filter e c \<Rightarrow>
          (if \<not> Resolved c then Inr n
           else (case resolve_expr (Schema c) (map Schema scope) e of
                   Inl err \<Rightarrow> Inl err | Inr e' \<Rightarrow> Inr (Filter e' c)))
      | GroupBy agg grp c \<Rightarrow>
          (if \<not> Resolved c then Inr n
           else (case resolve_exprs (Schema c) (map Schema scope) agg of
                   Inl err \<Rightarrow> Inl err
                 | Inr agg' \<Rightarrow> (case resolve_exprs (Schema c) (map Schema scope) grp of
                                  Inl err \<Rightarrow> Inl err
                                | Inr grp' \<Rightarrow> Inr (GroupBy agg' grp' c))))
      | InnerJoin l r e \<Rightarrow>
          (if \<not> (Resolved l \<and> Resolved r) then Inr n
           else (case resolve_expr (Schema l @ Schema r) (map Schema scope) e of
                   Inl err \<Rightarrow> Inl err | Inr e' \<Rightarrow> Inr (InnerJoin l r e')))
      | _ \<Rightarrow> Inr n)"

definition resolveColumns :: RuleFunc where
  "resolveColumns scope n = TransformUp n (resolveColumns_node scope)"

section \<open>Natural-join expansion\<close>

text \<open>
  Modelled from the spec: the natural-join rule is missing from the sources; its result
  is pinned down by \<^verbatim>\<open>TestMixInnerAndNaturalJoins\<close>. The conjunction of a list of
  predicates; the empty conjunction is the literal \<open>true\<close>.
\<close>

fun JoinAnd :: "Expression list \<Rightarrow> Expression" where
  "JoinAnd [] = Literal (VBool True) Boolean"
| "JoinAnd (c # cs) = foldl And c cs"

text \<open>
  Modelled from the spec: the columns of the left schema that have a column of the same
  name on the right, with the positions of both: \<open>(i, lcol, j, rcol)\<close>.
\<close>

fun common_columns ::
  "nat \<Rightarrow> Column list \<Rightarrow> Column list \<Rightarrow> (nat \<times> Column \<times> nat \<times> Column) list" where
  "common_columns i [] rs = []"
| "common_columns i (lcol # ls) rs =
     (case findCol rs (Name lcol) of
        None \<Rightarrow> common_columns (Suc i) ls rs
      | Some (j, rcol) \<Rightarrow> (i, lcol, j, rcol) # common_columns (Suc i) ls rs)"

text \<open>
  Modelled from the spec: a natural join of two resolved sides becomes an inner join
  whose condition is the conjunction of the equalities over all columns common by name,
  under a projection that lists the common columns (taken from the left side), then the
  other columns of the left side, then the columns of the right side that are not
  duplicates of a left column. Right-side fields are indexed behind the left schema, in
  the concatenated schema of the join.
\<close>

definition join_conditions :: "Column list \<Rightarrow> Column list \<Rightarrow> Expression list" where
  "join_conditions ls rs =
     map (\<lambda>(i, lcol, j, rcol). Equals (field_of (i, lcol)) (field_of (length ls + j, rcol)))
       (common_columns 0 ls rs)"

definition join_projection :: "Column list \<Rightarrow> Column list \<Rightarrow> Expression list" where
  "join_projection ls rs =
     map (\<lambda>(i, lcol, j, rcol). field_of (i, lcol)) (common_columns 0 ls rs) @
     map field_of (filter (\<lambda>(i, lcol). findCol rs (Name lcol) = None) (enumerate 0 ls)) @
     map field_of (filter (\<lambda>(j, rcol). findCol ls (Name rcol) = None) (enumerate (length ls) rs))"

definition expandNaturalJoin :: "Node \<Rightarrow> Node \<Rightarrow> Node" where
  "expandNaturalJoin l r =
     Project (join_projection (Schema l) (Schema r))
       (InnerJoin l r (JoinAnd (join_conditions (Schema l) (Schema r))))"

definition resolveNaturalJoins_node :: "Node \<Rightarrow> error + Node" where
  "resolveNaturalJoins_node n =
     (case n of
        NaturalJoin l r \<Rightarrow>
          (if \<not> Resolved l \<or> \<not> Resolved r then Inr n else Inr (expandNaturalJoin l r))
      | _ \<Rightarrow> Inr n)"

definition resolveNaturalJoins :: RuleFunc where
  "resolveNaturalJoins scope n = TransformUp n resolveNaturalJoins_node"

subsection \<open>Positional correctness\<close>

text \<open>
  Every \<open>GetField\<close> of an expression points, in the given schema, at a column with the
  source table and the name the field records.
\<close>

fun fields_ok :: "Column list \<Rightarrow> Expression \<Rightarrow> bool" where
  "fields_ok schema (GetField i ty tbl nm nl) =
     (i < length schema \<and> Source (schema ! i) = tbl \<and> Name (schema ! i) = nm)"
| "fields_ok schema (Alias a e) = fields_ok schema e"
| "fields_ok schema (Equals a b) = (fields_ok schema a \<and> fields_ok schema b)"
| "fields_ok schema (And a b) = (fields_ok schema a \<and> fields_ok schema b)"
| "fields_ok schema e = True"

text \<open>
  The same for a whole plan: the expressions each node owns are checked against the
  schema of the node's immediate child, and the condition of a join against the
  concatenated schema of its two sides (the schema of their cross join, which is empty
  as long as a side is unresolved).
\<close>

fun positional :: "Node \<Rightarrow> bool" where
  "positional (UnresolvedTable nm) = True"
| "positional (ResolvedTable t) = True"
| "positional (Project ps c) = (positional c \<and> list_all (fields_ok (Schema c)) ps)"
| "positional (Filter e c) = (positional c \<and> fields_ok (Schema c) e)"
| "positional (GroupBy agg grp c) =
     (positional c \<and> list_all (fields_ok (Schema c)) agg \<and> list_all (fields_ok (Schema c)) grp)"
| "positional (Limit k c) = positional c"
| "positional (InnerJoin l r e) =
     (positional l \<and> positional r \<and> fields_ok (Schema (CrossJoin l r)) e)"
| "positional (CrossJoin l r) = (positional l \<and> positional r)"
| "positional (NaturalJoin l r) = (positional l \<and> positional r)"
| "positional (TableAlias a c) = positional c"
| "positional (Describe c) = positional c"
| "positional (DecoratedNode d c) = positional c"

section \<open>Projection and filter pushdown\<close>

text \<open>
  Modelled from the spec: the rendering of expressions in the description of a
  \<open>DecoratedNode\<close> is missing from the sources; the tests show
  \<^verbatim>\<open>"Filtered table access on [mytable.i = 1]"\<close> and
  \<^verbatim>\<open>"Projected table access on [i t]"\<close>.
\<close>

fun nat_string :: "nat \<Rightarrow> string" where
  "nat_string n =
     (if n < 10 then [''0123456789'' ! n]
      else nat_string (n div 10) @ [''0123456789'' ! (n mod 10)])"

declare nat_string.simps [simp del]

fun value_string :: "Value \<Rightarrow> string" where
  "value_string VNull = ''NULL''"
| "value_string (VInt i) = (if i < 0 then ''-'' @ nat_string (nat (- i)) else nat_string (nat i))"
| "value_string (VText t) = t"
| "value_string (VBool b) = (if b then ''true'' else ''false'')"

fun expr_string :: "Expression \<Rightarrow> string" where
  "expr_string (Star tbl) = (if tbl = [] then ''*'' else tbl @ ''.*'')"
| "expr_string (GetField i ty tbl nm nl) = (if tbl = [] then nm else tbl @ ''.'' @ nm)"
| "expr_string (UnresolvedColumn nm) = nm"
| "expr_string (UnresolvedQualifiedColumn tbl nm) = tbl @ ''.'' @ nm"
| "expr_string (Alias a e) = expr_string e @ '' as '' @ a"
| "expr_string (Literal v ty) = value_string v"
| "expr_string (Equals a b) = expr_string a @ '' = '' @ expr_string b"
| "expr_string (And a b) = ''('' @ expr_string a @ '' AND '' @ expr_string b @ '')''"

fun join_strings :: "string list \<Rightarrow> string" where
  "join_strings [] = []"
| "join_strings [x] = x"
| "join_strings (x # xs) = x @ '' '' @ join_strings xs"

definition list_string :: "string list \<Rightarrow> string" where
  "list_string xs = ''['' @ join_strings xs @ '']''"

text \<open>
  Modelled from the spec: the pushdown rule is missing from the sources; the trees it
  produces are pinned down by the expectations of \<^verbatim>\<open>TestAnalyzer_Analyze\<close> and
  \<^verbatim>\<open>TestMixInnerAndNaturalJoins\<close>. The fields an expression references, as pairs
  of table and column name, in the order they occur.
\<close>

fun expr_fields :: "Expression \<Rightarrow> (string \<times> string) list" where
  "expr_fields (GetField i ty tbl nm nl) = [(tbl, nm)]"
| "expr_fields (Alias a e) = expr_fields e"
| "expr_fields (Equals a b) = expr_fields a @ expr_fields b"
| "expr_fields (And a b) = expr_fields a @ expr_fields b"
| "expr_fields e = []"

text \<open>
  Modelled from the spec: the fields referenced anywhere in a plan, the expressions of a
  node before those of its children, a left child before a right one.
\<close>

fun plan_fields :: "Node \<Rightarrow> (string \<times> string) list" where
  "plan_fields (Project ps c) = concat (map expr_fields ps) @ plan_fields c"
| "plan_fields (Filter e c) = expr_fields e @ plan_fields c"
| "plan_fields (GroupBy agg grp c) =
     concat (map expr_fields agg) @ concat (map expr_fields grp) @ plan_fields c"
| "plan_fields (Limit k c) = plan_fields c"
| "plan_fields (InnerJoin l r e) = expr_fields e @ plan_fields l @ plan_fields r"
| "plan_fields (CrossJoin l r) = plan_fields l @ plan_fields r"
| "plan_fields (NaturalJoin l r) = plan_fields l @ plan_fields r"
| "plan_fields (TableAlias a c) = plan_fields c"
| "plan_fields (Describe c) = plan_fields c"
| "plan_fields (DecoratedNode d c) = plan_fields c"
| "plan_fields n = []"

text \<open>
  Modelled from the spec: the column names of one table among a list of fields, each
  once, in the order of first use. This is the projection list pushed into the table
  (\<^verbatim>\<open>[f2 i2 t2]\<close> and \<^verbatim>\<open>[t3 i f2]\<close> in \<^verbatim>\<open>TestMixInnerAndNaturalJoins\<close>).
\<close>

definition table_fields :: "(string \<times> string) list \<Rightarrow> string \<Rightarrow> string list" where
  "table_fields used tbl = rev (remdups (rev (map snd (filter (\<lambda>(t, nm). t = tbl) used))))"

text \<open>
  Modelled from the spec: the predicates of a filter are the conjuncts of its condition;
  a predicate is pushable into a table when it references columns and every column it
  references is a column of that table ("predicates referencing multiple tables are left
  above the table and not pushed").
\<close>

fun splitConjunction :: "Expression \<Rightarrow> Expression list" where
  "splitConjunction (And a b) = splitConjunction a @ splitConjunction b"
| "splitConjunction e = [e]"

fun plan_predicates :: "Node \<Rightarrow> Expression list" where
  "plan_predicates (Project ps c) = plan_predicates c"
| "plan_predicates (Filter e c) = splitConjunction e @ plan_predicates c"
| "plan_predicates (GroupBy agg grp c) = plan_predicates c"
| "plan_predicates (Limit k c) = plan_predicates c"
| "plan_predicates (InnerJoin l r e) = plan_predicates l @ plan_predicates r"
| "plan_predicates (CrossJoin l r) = plan_predicates l @ plan_predicates r"
| "plan_predicates (NaturalJoin l r) = plan_predicates l @ plan_predicates r"
| "plan_predicates (TableAlias a c) = plan_predicates c"
| "plan_predicates (Describe c) = plan_predicates c"
| "plan_predicates (DecoratedNode d c) = plan_predicates c"
| "plan_predicates n = []"

definition pushable :: "string \<Rightarrow> Expression \<Rightarrow> bool" where
  "pushable tbl p = (expr_fields p \<noteq> [] \<and> list_all (\<lambda>(t, nm). t = tbl) (expr_fields p))"

text \<open>
  Modelled from the spec: pushdown applies to a table that declares the capability; a
  table that already carries a projection or filters has been pushed down and is left as
  it is ("re-running any pushdown rule on an already pushed-down tree yields a
  structurally identical tree"; the batch repeats the rule until nothing changes, and the
  tests expect every table wrapped once). \<open>plan_targets\<close> lists the names of the tables
  of a plan that pushdown will narrow; a predicate is handled when one of them takes it.
\<close>

definition narrowable :: "Table \<Rightarrow> bool" where
  "narrowable t = (pushdown t \<and> projection t = None \<and> filters t = [])"

fun plan_targets :: "Node \<Rightarrow> string list" where
  "plan_targets (ResolvedTable t) = (if narrowable t then [tname t] else [])"
| "plan_targets (Project ps c) = plan_targets c"
| "plan_targets (Filter e c) = plan_targets c"
| "plan_targets (GroupBy agg grp c) = plan_targets c"
| "plan_targets (Limit k c) = plan_targets c"
| "plan_targets (InnerJoin l r e) = plan_targets l @ plan_targets r"
| "plan_targets (CrossJoin l r) = plan_targets l @ plan_targets r"
| "plan_targets (NaturalJoin l r) = plan_targets l @ plan_targets r"
| "plan_targets (TableAlias a c) = plan_targets c"
| "plan_targets (Describe c) = plan_targets c"
| "plan_targets (DecoratedNode d c) = plan_targets c"
| "plan_targets n = []"

definition handled :: "string list \<Rightarrow> Expression \<Rightarrow> bool" where
  "handled targets p = list_ex (\<lambda>tbl. pushable tbl p) targets"

text \<open>
  Modelled from the spec: "changing pushdown projection must re-derive all contained
  \<open>GetField\<close> indices in the same rewrite pass". A field is given the position of the
  first column of the new schema with its table and name; a field that names no column of
  the schema keeps its index.
\<close>

fun find_field :: "Column list \<Rightarrow> string \<Rightarrow> string \<Rightarrow> nat option" where
  "find_field [] tbl nm = None"
| "find_field (c # cs) tbl nm =
     (if Source c = tbl \<and> Name c = nm then Some 0
      else (case find_field cs tbl nm of None \<Rightarrow> None | Some i \<Rightarrow> Some (Suc i)))"

fun fix_fields :: "Column list \<Rightarrow> Expression \<Rightarrow> Expression" where
  "fix_fields schema (GetField i ty tbl nm nl) =
     (case find_field schema tbl nm of
        None \<Rightarrow> GetField i ty tbl nm nl
      | Some j \<Rightarrow> GetField j ty tbl nm nl)"
| "fix_fields schema (Alias a e) = Alias a (fix_fields schema e)"
| "fix_fields schema (Equals a b) = Equals (fix_fields schema a) (fix_fields schema b)"
| "fix_fields schema (And a b) = And (fix_fields schema a) (fix_fields schema b)"
| "fix_fields schema e = e"

text \<open>
  Modelled from the spec: \<^verbatim>\<open>Table.WithFilters\<close> and \<^verbatim>\<open>Table.WithProjection\<close> of
  the storage collaborator return the table narrowed accordingly.
\<close>

definition WithFilters :: "Table \<Rightarrow> Expression list \<Rightarrow> Table" where
  "WithFilters t preds = t\<lparr>filters := filters t @ preds\<rparr>"

definition WithProjection :: "Table \<Rightarrow> string list \<Rightarrow> Table" where
  "WithProjection t names = t\<lparr>projection := Some names\<rparr>"

text \<open>
  Modelled from the spec: the rule at one node, given the fields, the filter predicates
  and the narrowable tables of the whole plan. A narrowable table receives the predicates
  pushable into it and the names of its columns that the plan uses, and is wrapped in one
  describing node for the projection and one, outside, for the filters; a table nothing
  is pushed into stays as it is. A filter loses the predicates that a table has taken and
  disappears when none is left. The fields of every node are re-derived against the
  schema of its rewritten child. A projection that, after that, lists exactly the columns
  of its child is replaced by the child ("the original \<open>Project\<close> node is replaced by a
  \<open>DecoratedNode\<close> describing the applied projection"); a projection that computes
  something else, such as an alias, stays above the narrowed table, as in the tests.
\<close>

definition pushdown_table :: "(string \<times> string) list \<Rightarrow> Expression list \<Rightarrow> Table \<Rightarrow> Node" where
  "pushdown_table used preds t =
     (let pushed = filter (pushable (tname t)) preds;
          names = table_fields used (tname t);
          t1 = (if pushed = [] then t else WithFilters t (map (fix_fields (tschema t)) pushed));
          n1 = (if names = [] then ResolvedTable t1
                else DecoratedNode (''Projected table access on '' @ list_string names)
                       (ResolvedTable (WithProjection t1 names)))
      in if pushed = [] then n1
         else DecoratedNode
                (''Filtered table access on '' @ list_string (map expr_string pushed)) n1)"

definition pushdown_node ::
  "(string \<times> string) list \<Rightarrow> Expression list \<Rightarrow> string list \<Rightarrow> Node \<Rightarrow> error + Node" where
  "pushdown_node used preds targets n =
     (case n of
        ResolvedTable t \<Rightarrow>
          if narrowable t then Inr (pushdown_table used preds t) else Inr n
      | Filter cond c \<Rightarrow>
          (let rest = filter (\<lambda>p. \<not> handled targets p) (splitConjunction cond)
           in if rest = splitConjunction cond then Inr (Filter (fix_fields (Schema c) cond) c)
              else if rest = [] then Inr c
              else Inr (Filter (fix_fields (Schema c) (JoinAnd rest)) c))
      | Project ps c \<Rightarrow>
          (let ps' = map (fix_fields (Schema c)) ps
           in if map expr_column ps' = Schema c then Inr c else Inr (Project ps' c))
      | GroupBy agg grp c \<Rightarrow>
          Inr (GroupBy (map (fix_fields (Schema c)) agg) (map (fix_fields (Schema c)) grp) c)
      | InnerJoin l r e \<Rightarrow> Inr (InnerJoin l r (fix_fields (Schema (CrossJoin l r)) e))
      | _ \<Rightarrow> Inr n)"

text \<open>
  Modelled from the spec: the pushdown rule. "Pushdown requires resolved schemas": a plan
  that is not resolved is returned as it is.
\<close>

definition pushdown_rule :: RuleFunc where
  "pushdown_rule scope n =
     (if \<not> Resolved n then Inr n
      else TransformUp n (pushdown_node (plan_fields n) (plan_predicates n) (plan_targets n)))"

section \<open>Building an analyzer\<close>

text \<open>
  Modelled from the spec: the builder is missing from the sources. Batches are ordered
  into pre-validation, the main phase (the default resolution rules, then pushdown
  together with the rules added after analysis) and post-validation; every batch has the
  same fixed iteration ceiling, which \<^verbatim>\<open>TestMaxIterations\<close> observes as 1000 passes.
\<close>

definition maxAnalysisIterations :: nat where
  "maxAnalysisIterations = 1000"

record Builder =
  preValidationRules :: "Rule list"
  defaultRules :: "Rule list"
  postAnalyzeRules :: "Rule list"
  postValidationRules :: "Rule list"

definition DefaultRules :: "Context \<Rightarrow> Rule list" where
  "DefaultRules ctx =
     [\<lparr>rule_name = ''resolve_tables'', Apply = resolveTables ctx\<rparr>,
      \<lparr>rule_name = ''resolve_natural_joins'', Apply = resolveNaturalJoins\<rparr>,
      \<lparr>rule_name = ''resolve_star'', Apply = (\<lambda>scope. resolveStar)\<rparr>,
      \<lparr>rule_name = ''resolve_columns'', Apply = resolveColumns\<rparr>]"

definition NewBuilder :: "Context \<Rightarrow> Builder" where
  "NewBuilder ctx =
     \<lparr>preValidationRules = [], defaultRules = DefaultRules ctx,
      postAnalyzeRules = [\<lparr>rule_name = ''pushdown'', Apply = pushdown_rule\<rparr>],
      postValidationRules = []\<rparr>"

definition AddPreValidationRule :: "string \<Rightarrow> RuleFunc \<Rightarrow> Builder \<Rightarrow> Builder" where
  "AddPreValidationRule nm f b =
     b\<lparr>preValidationRules := preValidationRules b @ [\<lparr>rule_name = nm, Apply = f\<rparr>]\<rparr>"

definition AddPostAnalyzeRule :: "string \<Rightarrow> RuleFunc \<Rightarrow> Builder \<Rightarrow> Builder" where
  "AddPostAnalyzeRule nm f b =
     b\<lparr>postAnalyzeRules := postAnalyzeRules b @ [\<lparr>rule_name = nm, Apply = f\<rparr>]\<rparr>"

definition AddPostValidationRule :: "string \<Rightarrow> RuleFunc \<Rightarrow> Builder \<Rightarrow> Builder" where
  "AddPostValidationRule nm f b =
     b\<lparr>postValidationRules := postValidationRules b @ [\<lparr>rule_name = nm, Apply = f\<rparr>]\<rparr>"

definition Build :: "Builder \<Rightarrow> Analyzer" where
  "Build b =
     [\<lparr>Desc = ''pre-validation'', Iterations = maxAnalysisIterations,
       Rules = preValidationRules b\<rparr>,
      \<lparr>Desc = ''default-rules'', Iterations = maxAnalysisIterations, Rules = defaultRules b\<rparr>,
      \<lparr>Desc = ''post-analyze'', Iterations = maxAnalysisIterations, Rules = postAnalyzeRules b\<rparr>,
      \<lparr>Desc = ''post-validation'', Iterations = maxAnalysisIterations,
       Rules = postValidationRules b\<rparr>]"

definition NewDefault :: "Context \<Rightarrow> Analyzer" where
  "NewDefault ctx = Build (NewBuilder ctx)"

text \<open>\<^verbatim>\<open>countRules\<close> of the test file.\<close>

fun countRules :: "Batch list \<Rightarrow> nat" where
  "countRules [] = 0"
| "countRules (b # bs) = length (Rules b) + countRules bs"

section \<open>What the specification says star expansion produces\<close>

text \<open>
  The columns a star selects, with their positions: every column of the schema when the
  star is unqualified, and the columns whose source table is the qualifier otherwise.
\<close>

definition star_columns :: "string \<Rightarrow> Column list \<Rightarrow> (nat \<times> Column) list" where
  "star_columns tbl schema =
     filter (\<lambda>(i, col). tbl = [] \<or> tbl = Source col) (enumerate 0 schema)"

text \<open>
  The ordered sequence that replaces one expression of a projection list: the fields of
  the selected columns for a star, the expression itself otherwise.
\<close>

fun expand_spec :: "Column list \<Rightarrow> Expression \<Rightarrow> Expression list" where
  "expand_spec schema (Star tbl) = map field_of (star_columns tbl schema)"
| "expand_spec schema e = [e]"

text \<open>A qualified star whose qualifier is the source table of no column of the schema.\<close>

fun unmatched :: "Column list \<Rightarrow> Expression \<Rightarrow> bool" where
  "unmatched schema (Star tbl) = (tbl \<noteq> [] \<and> list_all (\<lambda>col. tbl \<noteq> Source col) schema)"
| "unmatched schema e = False"

text \<open>
  The part of a plan the star rule never touches: the tree with the projection list of
  every \<open>Project\<close> and the aggregate list of every \<open>GroupBy\<close> blanked out.
\<close>

fun skeleton :: "Node \<Rightarrow> Node" where
  "skeleton (UnresolvedTable nm) = UnresolvedTable nm"
| "skeleton (ResolvedTable t) = ResolvedTable t"
| "skeleton (Project ps c) = Project [] (skeleton c)"
| "skeleton (Filter e c) = Filter e (skeleton c)"
| "skeleton (GroupBy agg grp c) = GroupBy [] grp (skeleton c)"
| "skeleton (Limit k c) = Limit k (skeleton c)"
| "skeleton (InnerJoin l r e) = InnerJoin (skeleton l) (skeleton r) e"
| "skeleton (CrossJoin l r) = CrossJoin (skeleton l) (skeleton r)"
| "skeleton (NaturalJoin l r) = NaturalJoin (skeleton l) (skeleton r)"
| "skeleton (TableAlias a c) = TableAlias a (skeleton c)"
| "skeleton (Describe c) = Describe (skeleton c)"
| "skeleton (DecoratedNode d c) = DecoratedNode d (skeleton c)"

fun is_Project_or_GroupBy :: "Node \<Rightarrow> bool" where
  "is_Project_or_GroupBy (Project ps c) = True"
| "is_Project_or_GroupBy (GroupBy agg grp c) = True"
| "is_Project_or_GroupBy n = False"

section \<open>What the specification says resolution rejects\<close>





fun children :: "Node \<Rightarrow> Node list" where
  "children (UnresolvedTable nm) = []"
| "children (ResolvedTable t) = []"
| "children (Project ps c) = [c]"
| "children (Filter e c) = [c]"
| "children (GroupBy agg grp c) = [c]"
| "children (Limit k c) = [c]"
| "children (InnerJoin l r e) = [l, r]"
| "children (CrossJoin l r) = [l, r]"
| "children (NaturalJoin l r) = [l, r]"
| "children (TableAlias a c) = [c]"
| "children (Describe c) = [c]"
| "children (DecoratedNode d c) = [c]"










section \<open>Tables of the test suite\<close>

text \<open>The pushdown tables of \<^verbatim>\<open>TestAnalyzer_Analyze\<close>.\<close>

definition mytable :: Table where
  "mytable = \<lparr>tname = ''mytable'',
     tschema = [\<lparr>Name = ''i'', Type = Int32, Source = ''mytable'', Nullable = False\<rparr>,
                \<lparr>Name = ''t'', Type = Text, Source = ''mytable'', Nullable = False\<rparr>],
     trows = [], pushdown = True, projection = None, filters = []\<rparr>"

definition mytable2 :: Table where
  "mytable2 = \<lparr>tname = ''mytable2'',
     tschema = [\<lparr>Name = ''i2'', Type = Int32, Source = ''mytable2'', Nullable = False\<rparr>],
     trows = [], pushdown = True, projection = None, filters = []\<rparr>"

text \<open>The tables of \<^verbatim>\<open>TestMixInnerAndNaturalJoins\<close>.\<close>

definition mix_table :: Table where
  "mix_table = \<lparr>tname = ''mytable'',
     tschema = [\<lparr>Name = ''i'', Type = Int32, Source = ''mytable'', Nullable = False\<rparr>,
                \<lparr>Name = ''f'', Type = Float64, Source = ''mytable'', Nullable = False\<rparr>,
                \<lparr>Name = ''t'', Type = Text, Source = ''mytable'', Nullable = False\<rparr>],
     trows = [], pushdown = True, projection = None, filters = []\<rparr>"

definition mix_table2 :: Table where
  "mix_table2 = \<lparr>tname = ''mytable2'',
     tschema = [\<lparr>Name = ''i2'', Type = Int32, Source = ''mytable2'', Nullable = False\<rparr>,
                \<lparr>Name = ''f2'', Type = Float64, Source = ''mytable2'', Nullable = False\<rparr>,
                \<lparr>Name = ''t2'', Type = Text, Source = ''mytable2'', Nullable = False\<rparr>],
     trows = [], pushdown = True, projection = None, filters = []\<rparr>"

definition mix_table3 :: Table where
  "mix_table3 = \<lparr>tname = ''mytable3'',
     tschema = [\<lparr>Name = ''i'', Type = Int32, Source = ''mytable3'', Nullable = False\<rparr>,
                \<lparr>Name = ''f2'', Type = Float64, Source = ''mytable3'', Nullable = False\<rparr>,
                \<lparr>Name = ''t3'', Type = Text, Source = ''mytable3'', Nullable = False\<rparr>],
     trows = [], pushdown = True, projection = None, filters = []\<rparr>"

text \<open>The catalog and context of \<^verbatim>\<open>TestMixInnerAndNaturalJoins\<close>.\<close>

definition mix_ctx :: Context where
  "mix_ctx = \<lparr>catalog = [(''mydb'', [(''mytable'', mix_table), (''mytable2'', mix_table2),
                                     (''mytable3'', mix_table3)])],
              currentDB = ''mydb''\<rparr>"

text \<open>The catalog and context of \<^verbatim>\<open>TestAnalyzer_Analyze\<close>.\<close>

definition mydb_ctx :: Context where
  "mydb_ctx = \<lparr>catalog = [(''mydb'', [(''mytable'', mytable), (''mytable2'', mytable2)])],
               currentDB = ''mydb''\<rparr>"

text \<open>
  The rule of \<^verbatim>\<open>TestMaxIterations\<close>: it replaces a resolved table at the root by a
  renamed table on every pass. The rules of this model are pure, so the pass is recorded
  in the name itself, one mark per rewrite, instead of a counter.
\<close>

definition loop_rule :: RuleFunc where
  "loop_rule scope n =
     (case n of
        ResolvedTable t \<Rightarrow> Inr (ResolvedTable (t\<lparr>tname := CHR ''+'' # tname t\<rparr>))
      | _ \<Rightarrow> Inr n)"

section \<open>Properties of star resolution\<close>

lemma starFields_enumerate:
  "starFields tbl i cols exprs =
     exprs @ map field_of (filter (\<lambda>(j, col). tbl = [] \<or> tbl = Source col) (enumerate i cols))"
  by (induction cols arbitrary: i exprs) (auto simp: field_of_def)

lemma starFields_star_columns:
  "starFields tbl 0 schema [] = map field_of (star_columns tbl schema)"
  by (simp add: starFields_enumerate star_columns_def)

lemma filter_enumerate_empty:
  "(filter (\<lambda>(j, col). P col) (enumerate i cols) = []) = (\<forall>col \<in> set cols. \<not> P col)"
  by (induction cols arbitrary: i) auto

lemma star_columns_empty_iff:
  "(star_columns tbl schema = []) = (\<forall>col \<in> set schema. \<not> (tbl = [] \<or> tbl = Source col))"
  unfolding star_columns_def
  using filter_enumerate_empty[of "\<lambda>col. tbl = [] \<or> tbl = Source col" 0 schema]
  by simp

lemma unmatched_Star_iff:
  "unmatched schema (Star tbl) = (star_columns tbl schema = [] \<and> tbl \<noteq> [])"
  unfolding star_columns_empty_iff by (auto simp: list_all_iff)

lemma expand_star_step:
  assumes "\<not> unmatched schema (Star tbl)"
  shows "expandStars_loop (Star tbl # es) schema acc =
         expandStars_loop es schema (acc @ expand_spec schema (Star tbl))"
proof -
  have "(length (starFields tbl 0 schema []) = 0 \<and> tbl \<noteq> []) = False"
    using assms unfolding unmatched_Star_iff by (simp add: starFields_star_columns)
  then have "expandStars_loop (Star tbl # es) schema acc =
      expandStars_loop es schema (acc @ starFields tbl 0 schema [])"
    by (simp only: expandStars_loop.simps Let_def if_False)
  then show ?thesis by (simp add: starFields_star_columns)
qed

lemma expand_star_fail:
  assumes "unmatched schema (Star tbl)"
  shows "expandStars_loop (Star tbl # es) schema acc = Inl (TableNotFound tbl)"
proof -
  have "(length (starFields tbl 0 schema []) = 0 \<and> tbl \<noteq> []) = True"
    using assms unfolding unmatched_Star_iff by (simp add: starFields_star_columns)
  then show ?thesis
    by (simp only: expandStars_loop.simps Let_def if_True)
qed

lemma expand_other_step:
  "\<forall>tbl. e \<noteq> Star tbl \<Longrightarrow>
   expandStars_loop (e # es) schema acc = expandStars_loop es schema (acc @ expand_spec schema e)"
  by (cases e) simp_all

lemma expand_step:
  assumes "\<not> unmatched schema e"
  shows "expandStars_loop (e # es) schema acc =
         expandStars_loop es schema (acc @ expand_spec schema e)"
proof (cases "\<exists>tbl. e = Star tbl")
  case True
  then obtain tbl where e: "e = Star tbl" by blast
  show ?thesis using assms unfolding e by (rule expand_star_step)
next
  case False
  then show ?thesis by (simp add: expand_other_step)
qed

lemma expandStars_loop_ok:
  "\<forall>e \<in> set exprs. \<not> unmatched schema e \<Longrightarrow>
   expandStars_loop exprs schema acc = Inr (acc @ concat (map (expand_spec schema) exprs))"
proof (induction exprs arbitrary: acc)
  case Nil
  then show ?case by simp
next
  case (Cons e es)
  have ok: "\<forall>e \<in> set es. \<not> unmatched schema e" using Cons.prems by simp
  have step: "expandStars_loop (e # es) schema acc =
      expandStars_loop es schema (acc @ expand_spec schema e)"
    using Cons.prems by (simp add: expand_step)
  show ?case unfolding step Cons.IH[OF ok] by simp
qed

lemma expandStars_loop_fail:
  assumes "\<forall>e \<in> set pre. \<not> unmatched schema e" and "unmatched schema (Star tbl)"
  shows "expandStars_loop (pre @ Star tbl # post) schema acc = Inl (TableNotFound tbl)"
  using assms(1)
proof (induction pre arbitrary: acc)
  case Nil
  show ?case using expand_star_fail[OF assms(2)] by (simp del: expandStars_loop.simps)
next
  case (Cons x xs)
  have "expandStars_loop (x # (xs @ Star tbl # post)) schema acc =
        expandStars_loop (xs @ Star tbl # post) schema (acc @ expand_spec schema x)"
    using Cons.prems by (simp add: expand_step)
  then show ?case using Cons by simp
qed

lemma expandStars_ok:
  "\<forall>e \<in> set exprs. \<not> unmatched schema e \<Longrightarrow>
   expandStars exprs schema = Inr (concat (map (expand_spec schema) exprs))"
  by (simp add: expandStars_def expandStars_loop_ok)

lemma TransformUp_resolved:
  "Resolved n \<Longrightarrow> TransformUp n resolveStar_node = Inr n"
  by (induction n) (simp_all add: resolveStar_node_def)

lemma expand_spec_resolved:
  "expr_resolved e \<Longrightarrow> expand_spec schema e = [e]"
  by (cases e) simp_all

lemma expand_spec_resolved_list:
  "list_all expr_resolved es \<Longrightarrow> concat (map (expand_spec schema) es) = es"
  by (induction es) (simp_all add: expand_spec_resolved)

lemma resolved_not_unmatched:
  "expr_resolved e \<Longrightarrow> \<not> unmatched schema e"
  by (cases e) simp_all

lemma resolveStar_node_Project:
  assumes "Resolved child" and "\<forall>e \<in> set exprs. \<not> unmatched (Schema child) e"
  shows "resolveStar_node (Project exprs child) =
         Inr (Project (concat (map (expand_spec (Schema child)) exprs)) child)"
proof (cases "list_all expr_resolved exprs")
  case True
  then show ?thesis using assms(1)
    by (simp add: resolveStar_node_def expand_spec_resolved_list)
next
  case False
  then show ?thesis using assms
    by (simp add: resolveStar_node_def expandStars_ok)
qed

lemma resolveStar_node_GroupBy:
  assumes "Resolved child" and "\<forall>e \<in> set exprs. \<not> unmatched (Schema child) e"
  shows "resolveStar_node (GroupBy exprs grouping child) =
         Inr (GroupBy (concat (map (expand_spec (Schema child)) exprs)) grouping child)"
proof (cases "list_all expr_resolved exprs \<and> list_all expr_resolved grouping")
  case True
  then show ?thesis using assms(1)
    by (simp add: resolveStar_node_def expand_spec_resolved_list)
next
  case False
  then show ?thesis using assms
    by (auto simp add: resolveStar_node_def expandStars_ok)
qed

lemma star_columns_unqualified:
  "map field_of (star_columns [] schema) = map (\<lambda>i. field_of (i, schema ! i)) [0..<length schema]"
proof -
  have "star_columns [] schema = enumerate 0 schema"
    by (simp add: star_columns_def)
  then show ?thesis
    by (auto intro!: nth_equalityI simp: nth_enumerate_eq)
qed

text \<open>
  Claim C1. For a \<open>Project\<close> (or \<open>GroupBy\<close>) node whose child is resolved, a pass of
  the star rule replaces every star of the list, in place and in order, by the fields of
  the columns of the child's schema that the star selects (all columns when the star is
  unqualified, the columns of the qualifying table otherwise), and keeps every other
  expression; this holds whenever no qualified star selects the empty set of columns,
  which is the failure of claim C8. In particular \<^verbatim>\<open>SELECT * FROM t\<close> yields one
  \<open>GetField\<close> per column of the child's schema, in schema order, and \<^verbatim>\<open>a.*\<close> yields
  the fields of the columns of \<open>a\<close> only.
\<close>
theorem star_expansion_complete:
  assumes "Resolved child"
  shows "((\<forall>e \<in> set exprs. \<not> unmatched (Schema child) e) \<longrightarrow>
           resolveStar (Project exprs child) =
             Inr (Project (concat (map (expand_spec (Schema child)) exprs)) child) \<and>
           resolveStar (GroupBy exprs grouping child) =
             Inr (GroupBy (concat (map (expand_spec (Schema child)) exprs)) grouping child)) \<and>
         resolveStar (Project [Star []] child) =
           Inr (Project (map (\<lambda>i. field_of (i, Schema child ! i)) [0..<length (Schema child)]) child) \<and>
         (tbl \<noteq> [] \<and> (\<exists>col \<in> set (Schema child). Source col = tbl) \<longrightarrow>
           resolveStar (Project [Star tbl] child) =
             Inr (Project (map field_of
                    (filter (\<lambda>(i, col). Source col = tbl) (enumerate 0 (Schema child)))) child))"
proof (intro conjI impI)
  have child: "TransformUp child resolveStar_node = Inr child"
    using assms by (rule TransformUp_resolved)
  {
    assume ok: "\<forall>e \<in> set exprs. \<not> unmatched (Schema child) e"
    show "resolveStar (Project exprs child) =
             Inr (Project (concat (map (expand_spec (Schema child)) exprs)) child)"
      using assms child ok by (simp add: resolveStar_def resolveStar_node_Project)
    show "resolveStar (GroupBy exprs grouping child) =
             Inr (GroupBy (concat (map (expand_spec (Schema child)) exprs)) grouping child)"
      using assms child ok by (simp add: resolveStar_def resolveStar_node_GroupBy)
  }
  have "\<forall>e \<in> set [Star []]. \<not> unmatched (Schema child) e" by simp
  then have "resolveStar_node (Project [Star []] child) =
      Inr (Project (concat (map (expand_spec (Schema child)) [Star []])) child)"
    using assms by (rule resolveStar_node_Project[rotated])
  then show "resolveStar (Project [Star []] child) =
           Inr (Project (map (\<lambda>i. field_of (i, Schema child ! i)) [0..<length (Schema child)]) child)"
    using child by (simp add: resolveStar_def star_columns_unqualified)
  {
    assume a: "tbl \<noteq> [] \<and> (\<exists>col \<in> set (Schema child). Source col = tbl)"
    then have "\<forall>e \<in> set [Star tbl]. \<not> unmatched (Schema child) e"
      by (auto simp: list_all_iff)
    then have "resolveStar_node (Project [Star tbl] child) =
      Inr (Project (concat (map (expand_spec (Schema child)) [Star tbl])) child)"
      using assms by (rule resolveStar_node_Project[rotated])
    moreover have "star_columns tbl (Schema child) =
        filter (\<lambda>(i, col). Source col = tbl) (enumerate 0 (Schema child))"
      using a by (auto simp: star_columns_def intro!: filter_cong)
    ultimately show "resolveStar (Project [Star tbl] child) =
             Inr (Project (map field_of
                    (filter (\<lambda>(i, col). Source col = tbl) (enumerate 0 (Schema child)))) child)"
      using child by (simp add: resolveStar_def)
  }
qed

lemma Schema_mytable: "Schema (ResolvedTable mytable) = tschema mytable"
  by (simp add: Schema_def Table_Schema_def mytable_def)

lemma Schema_cross:
  "Schema (CrossJoin (ResolvedTable mytable) (ResolvedTable mytable2)) = tschema mytable @ tschema mytable2"
  by (simp add: Schema_def Table_Schema_def mytable_def mytable2_def)

theorem star_expansion_complete_witness:
  "Resolved (CrossJoin (ResolvedTable mytable) (ResolvedTable mytable2)) \<and>
   resolveStar (Project [Star []] (CrossJoin (ResolvedTable mytable) (ResolvedTable mytable2))) =
     Inr (Project [GetField 0 Int32 ''mytable'' ''i'' False,
                   GetField 1 Text ''mytable'' ''t'' False,
                   GetField 2 Int32 ''mytable2'' ''i2'' False]
            (CrossJoin (ResolvedTable mytable) (ResolvedTable mytable2))) \<and>
   resolveStar (Project [Star ''mytable2'', Literal (VInt 1) Int64, Star ''mytable'']
                  (CrossJoin (ResolvedTable mytable) (ResolvedTable mytable2))) =
     Inr (Project [GetField 2 Int32 ''mytable2'' ''i2'' False,
                   Literal (VInt 1) Int64,
                   GetField 0 Int32 ''mytable'' ''i'' False,
                   GetField 1 Text ''mytable'' ''t'' False]
            (CrossJoin (ResolvedTable mytable) (ResolvedTable mytable2))) \<and>
   resolveStar (Project [Star ''mytable''] (CrossJoin (ResolvedTable mytable) (ResolvedTable mytable2))) =
     Inr (Project [GetField 0 Int32 ''mytable'' ''i'' False,
                   GetField 1 Text ''mytable'' ''t'' False]
            (CrossJoin (ResolvedTable mytable) (ResolvedTable mytable2)))"
proof -
  let ?c = "CrossJoin (ResolvedTable mytable) (ResolvedTable mytable2)"
  have r: "Resolved ?c" by simp
  have s: "Schema ?c = tschema mytable @ tschema mytable2" by (rule Schema_cross)
  have u: "[0..<3] = [0, 1, 2]" by (simp add: upt_rec)
  show ?thesis
    using r
      star_expansion_complete[OF r, of "[Star ''mytable2'', Literal (VInt 1) Int64, Star ''mytable'']" "[]" "''mytable''"]
    unfolding s
    by (simp add: mytable_def mytable2_def star_columns_def field_of_def u)
qed

text \<open>
  Claim C8. Star expansion fails with \<open>TableNotFound\<close> when a star qualified by a table
  name selects no column of the schema, and the error carries that table name: the
  first such star of the list decides the result, for \<open>expandStars\<close> and for the rule
  applied to a \<open>Project\<close> or \<open>GroupBy\<close> over a resolved child with that schema.
\<close>
theorem star_table_not_found:
  assumes "tbl \<noteq> []"
    and "\<forall>col \<in> set schema. Source col \<noteq> tbl"
    and "\<forall>e \<in> set pre. \<not> unmatched schema e"
  shows "expandStars (pre @ Star tbl # post) schema = Inl (TableNotFound tbl) \<and>
         (Resolved child \<and> Schema child = schema \<longrightarrow>
            resolveStar (Project (pre @ Star tbl # post) child) = Inl (TableNotFound tbl) \<and>
            resolveStar (GroupBy (pre @ Star tbl # post) grouping child) = Inl (TableNotFound tbl))"
proof -
  have u: "unmatched schema (Star tbl)"
    using assms(1,2) by (auto simp: list_all_iff)
  have e: "expandStars (pre @ Star tbl # post) schema = Inl (TableNotFound tbl)"
    unfolding expandStars_def using assms(3) u by (rule expandStars_loop_fail)
  {
    assume c: "Resolved child \<and> Schema child = schema"
    then have t: "TransformUp child resolveStar_node = Inr child"
      by (simp add: TransformUp_resolved)
    have "resolveStar (Project (pre @ Star tbl # post) child) = Inl (TableNotFound tbl)"
      using c t e by (simp add: resolveStar_def resolveStar_node_def)
    moreover have "resolveStar (GroupBy (pre @ Star tbl # post) grouping child) = Inl (TableNotFound tbl)"
      using c t e by (simp add: resolveStar_def resolveStar_node_def)
    ultimately have "resolveStar (Project (pre @ Star tbl # post) child) = Inl (TableNotFound tbl) \<and>
            resolveStar (GroupBy (pre @ Star tbl # post) grouping child) = Inl (TableNotFound tbl)"
      by simp
  }
  then show ?thesis using e by blast
qed

theorem star_table_not_found_witness:
  "expandStars [Star ''mytable'', Star ''foo'', Star ''bar''] (tschema mytable) = Inl (TableNotFound ''foo'') \<and>
   resolveStar (Project [Star ''mytable'', Star ''foo'', Star ''bar''] (ResolvedTable mytable)) =
     Inl (TableNotFound ''foo'')"
proof -
  have 1: "''foo'' \<noteq> []" by simp
  have 2: "\<forall>col \<in> set (tschema mytable). Source col \<noteq> ''foo''" by (simp add: mytable_def)
  have 3: "\<forall>e \<in> set [Star ''mytable'']. \<not> unmatched (tschema mytable) e" by (simp add: mytable_def)
  show ?thesis
    using star_table_not_found[OF 1 2 3, of "[Star ''bar'']" "ResolvedTable mytable" "[]"] Schema_mytable
    by simp
qed

text \<open>
  Claim C7 says that a \<open>Project\<close> or \<open>GroupBy\<close> whose immediate child is not resolved
  comes back unchanged from a single pass of the rule. The pass is a bottom-up
  traversal, so the child is rewritten before the parent is examined: with a star
  projection over a star projection over a resolved table, the inner projection is
  unresolved before the pass, both are expanded by the one pass.
\<close>
theorem unresolved_child_counterexample:
  "\<not> Resolved (Project [Star []] (ResolvedTable mytable)) \<and>
   resolveStar (Project [Star []] (Project [Star []] (ResolvedTable mytable))) =
     Inr (Project [GetField 0 Int32 ''mytable'' ''i'' False, GetField 1 Text ''mytable'' ''t'' False]
           (Project [GetField 0 Int32 ''mytable'' ''i'' False, GetField 1 Text ''mytable'' ''t'' False]
             (ResolvedTable mytable))) \<and>
   resolveStar (Project [Star []] (Project [Star []] (ResolvedTable mytable))) \<noteq>
     Inr (Project [Star []] (Project [Star []] (ResolvedTable mytable)))"
  by (simp add: resolveStar_def resolveStar_node_def expandStars_def Schema_def Table_Schema_def
      mytable_def)

text \<open>
  Claim C7, amended. A \<open>Project\<close> or \<open>GroupBy\<close> whose child is still unresolved after
  the pass has rewritten that child keeps its own expressions: the pass returns the node
  over the rewritten child.
\<close>

theorem unresolved_child_after_pass:
  assumes "resolveStar child = Inr child'" and "\<not> Resolved child'"
  shows "resolveStar (Project exprs child) = Inr (Project exprs child') \<and>
         resolveStar (GroupBy exprs grouping child) = Inr (GroupBy exprs grouping child')"
  using assms by (simp add: resolveStar_def resolveStar_node_def)

theorem unresolved_child_after_pass_witness:
  "resolveStar (Filter (Star []) (UnresolvedTable ''mytable'')) =
     Inr (Filter (Star []) (UnresolvedTable ''mytable'')) \<and>
   \<not> Resolved (Filter (Star []) (UnresolvedTable ''mytable'')) \<and>
   resolveStar (Project [Star []] (Filter (Star []) (UnresolvedTable ''mytable''))) =
     Inr (Project [Star []] (Filter (Star []) (UnresolvedTable ''mytable'')))"
proof -
  have 1: "resolveStar (Filter (Star []) (UnresolvedTable ''mytable'')) =
     Inr (Filter (Star []) (UnresolvedTable ''mytable''))"
    by (simp add: resolveStar_def resolveStar_node_def)
  have 2: "\<not> Resolved (Filter (Star []) (UnresolvedTable ''mytable''))" by simp
  show ?thesis
    using 1 2 unresolved_child_after_pass[OF 1 2, of "[Star []]" "[]"] by simp
qed

lemma resolveStar_node_skeleton:
  "resolveStar_node n = Inr n' \<Longrightarrow> skeleton n' = skeleton n"
  by (cases n) (auto simp: resolveStar_node_def split: if_splits sum.splits)

lemma TransformUp_skeleton:
  "TransformUp n resolveStar_node = Inr n' \<Longrightarrow> skeleton n' = skeleton n"
proof (induction n arbitrary: n')
  case (UnresolvedTable x)
  then show ?case using resolveStar_node_skeleton by fastforce
next
  case (ResolvedTable x)
  then show ?case using resolveStar_node_skeleton by fastforce
next
  case (Project x1a n)
  then show ?case using resolveStar_node_skeleton by (fastforce split: sum.splits)
next
  case (Filter x1a n)
  then show ?case using resolveStar_node_skeleton by (fastforce split: sum.splits)
next
  case (GroupBy x1a x2a n)
  then show ?case using resolveStar_node_skeleton by (fastforce split: sum.splits)
next
  case (Limit x1a n)
  then show ?case using resolveStar_node_skeleton by (fastforce split: sum.splits)
next
  case (InnerJoin n1 n2 x3)
  then show ?case using resolveStar_node_skeleton by (fastforce split: sum.splits)
next
  case (CrossJoin n1 n2)
  then show ?case using resolveStar_node_skeleton by (fastforce split: sum.splits)
next
  case (NaturalJoin n1 n2)
  then show ?case using resolveStar_node_skeleton by (fastforce split: sum.splits)
next
  case (TableAlias x1a n)
  then show ?case using resolveStar_node_skeleton by (fastforce split: sum.splits)
next
  case (Describe n)
  then show ?case using resolveStar_node_skeleton by (fastforce split: sum.splits)
next
  case (DecoratedNode x1a n)
  then show ?case using resolveStar_node_skeleton by (fastforce split: sum.splits)
qed

text \<open>
  Claim C10. The star rule rewrites \<open>Project\<close> and \<open>GroupBy\<close> nodes only: the function
  it applies at each node returns every node of another kind as it is, whatever stars its
  own expressions contain, and a whole pass changes nothing of a plan but the projection
  lists of its \<open>Project\<close> nodes and the aggregate lists of its \<open>GroupBy\<close> nodes.
\<close>
theorem star_rule_only_rewrites_projections:
  "(\<not> is_Project_or_GroupBy n \<longrightarrow> resolveStar_node n = Inr n) \<and>
   (resolveStar n = Inr n' \<longrightarrow> skeleton n' = skeleton n)"
proof -
  have "\<not> is_Project_or_GroupBy n \<longrightarrow> resolveStar_node n = Inr n"
    by (cases n) (simp_all add: resolveStar_node_def)
  then show ?thesis
    using TransformUp_skeleton by (simp add: resolveStar_def)
qed

theorem star_rule_only_rewrites_projections_witness:
  "\<not> is_Project_or_GroupBy (Filter (Star []) (ResolvedTable mytable)) \<and>
   resolveStar_node (Filter (Star []) (ResolvedTable mytable)) = Inr (Filter (Star []) (ResolvedTable mytable)) \<and>
   resolveStar (Filter (Star []) (Project [Star []] (ResolvedTable mytable))) =
     Inr (Filter (Star []) (Project [GetField 0 Int32 ''mytable'' ''i'' False,
                                      GetField 1 Text ''mytable'' ''t'' False] (ResolvedTable mytable))) \<and>
   skeleton (Filter (Star []) (Project [GetField 0 Int32 ''mytable'' ''i'' False,
                                      GetField 1 Text ''mytable'' ''t'' False] (ResolvedTable mytable))) =
   skeleton (Filter (Star []) (Project [Star []] (ResolvedTable mytable)))"
proof -
  have 1: "resolveStar (Filter (Star []) (Project [Star []] (ResolvedTable mytable))) =
     Inr (Filter (Star []) (Project [GetField 0 Int32 ''mytable'' ''i'' False,
                                      GetField 1 Text ''mytable'' ''t'' False] (ResolvedTable mytable)))"
    by (simp add: resolveStar_def resolveStar_node_def expandStars_def Schema_def Table_Schema_def
      mytable_def)
  show ?thesis
    using 1 star_rule_only_rewrites_projections[of "Filter (Star []) (ResolvedTable mytable)"]
      star_rule_only_rewrites_projections[of "Filter (Star []) (Project [Star []] (ResolvedTable mytable))"
         "Filter (Star []) (Project [GetField 0 Int32 ''mytable'' ''i'' False,
                                      GetField 1 Text ''mytable'' ''t'' False] (ResolvedTable mytable))"]
    by simp
qed

section \<open>Properties of the rule engine\<close>

lemma evalOnce_error_source:
  "evalOnce rs scope n changed = Inl err \<Longrightarrow> \<exists>r \<in> set rs. \<exists>m. Apply r scope m = Inl err"
proof (induction rs arbitrary: n changed)
  case Nil
  then show ?case by simp
next
  case (Cons r rs)
  show ?case
  proof (cases "Apply r scope n")
    case (Inl e)
    then have "e = err" using Cons.prems by simp
    then show ?thesis using Inl by auto
  next
    case (Inr n')
    then have "evalOnce rs scope n' (changed \<or> n' \<noteq> n) = Inl err"
      using Cons.prems by simp
    then show ?thesis using Cons.IH by auto
  qed
qed

lemma Eval_loop_error_source:
  "fst (Eval_loop rs scope k n passes) = Inl err \<Longrightarrow>
   \<exists>r \<in> set rs. \<exists>m. Apply r scope m = Inl err"
proof (induction k arbitrary: n passes)
  case 0
  then show ?case by simp
next
  case (Suc k)
  show ?case
  proof (cases "evalOnce rs scope n False")
    case (Inl e)
    then have "e = err" using Suc.prems by simp
    then show ?thesis using Inl evalOnce_error_source by blast
  next
    case (Inr p)
    obtain n' changed where p: "p = (n', changed)" by (cases p)
    show ?thesis
    proof (cases changed)
      case True
      then have "fst (Eval_loop rs scope k n' (Suc passes)) = Inl err"
        using Suc.prems Inr p by simp
      then show ?thesis by (rule Suc.IH)
    next
      case False
      then show ?thesis using Suc.prems Inr p by simp
    qed
  qed
qed

lemma Analyze_batches_error_source:
  "fst (Analyze_batches bs scope n passes) = Inl err \<Longrightarrow>
   \<exists>b \<in> set bs. \<exists>r \<in> set (Rules b). \<exists>m. Apply r scope m = Inl err"
proof (induction bs arbitrary: n passes)
  case Nil
  then show ?case by simp
next
  case (Cons b bs)
  obtain res p where e: "Eval b scope n passes = (res, p)" by (cases "Eval b scope n passes")
  show ?case
  proof (cases res)
    case (Inl e')
    then have "e' = err" using Cons.prems e by simp
    then have "fst (Eval_loop (Rules b) scope (Iterations b) n passes) = Inl err"
      using e Inl by (simp add: Eval_def)
    then have "\<exists>r \<in> set (Rules b). \<exists>m. Apply r scope m = Inl err"
      by (rule Eval_loop_error_source)
    then show ?thesis by auto
  next
    case (Inr n')
    then have "fst (Analyze_batches bs scope n' p) = Inl err"
      using Cons.prems e by simp
    then show ?thesis using Cons.IH by auto
  qed
qed

lemma Eval_loop_passes:
  "snd (Eval_loop rs scope k n passes) \<le> passes + k"
proof (induction k arbitrary: n passes)
  case 0
  then show ?case by simp
next
  case (Suc k)
  show ?case
  proof (cases "evalOnce rs scope n False")
    case (Inl e)
    then show ?thesis by simp
  next
    case (Inr p)
    obtain n' changed where p: "p = (n', changed)" by (cases p)
    have "snd (Eval_loop rs scope k n' (Suc passes)) \<le> Suc passes + k" by (rule Suc.IH)
    then show ?thesis using Inr p by simp
  qed
qed

lemma Analyze_batches_passes:
  "snd (Analyze_batches bs scope n passes) \<le> passes + sum_list (map Iterations bs)"
proof (induction bs arbitrary: n passes)
  case Nil
  then show ?case by simp
next
  case (Cons b bs)
  obtain res p where e: "Eval b scope n passes = (res, p)" by (cases "Eval b scope n passes")
  have p: "p \<le> passes + Iterations b"
    using Eval_loop_passes[of "Rules b" scope "Iterations b" n passes] e by (simp add: Eval_def)
  show ?case
  proof (cases res)
    case (Inl e')
    then show ?thesis using e p by simp
  next
    case (Inr n')
    have "snd (Analyze_batches bs scope n' p) \<le> p + sum_list (map Iterations bs)"
      by (rule Cons.IH)
    then show ?thesis using e p Inr by simp
  qed
qed

lemma reaches_ceiling_Eval_loop:
  "reaches_ceiling rs scope k n \<Longrightarrow>
   \<exists>n'. Eval_loop rs scope k n passes = (Inr n', passes + k) \<and> passes_result rs scope k n = Inr n'"
proof (induction k arbitrary: n passes)
  case 0
  then show ?case by simp
next
  case (Suc k)
  from Suc.prems obtain n' where
    e: "evalOnce rs scope n False = Inr (n', True)" and r: "reaches_ceiling rs scope k n'"
    by (auto split: sum.splits)
  from Suc.IH[OF r, of "Suc passes"] obtain n'' where
    "Eval_loop rs scope k n' (Suc passes) = (Inr n'', Suc passes + k)"
    "passes_result rs scope k n' = Inr n''" by blast
  then show ?case using e by simp
qed

text \<open>
  Claim C4. Reaching the iteration ceiling is not an error. Every error \<open>Analyze\<close>
  returns is the error some rule of some batch returned on some tree, so the engine
  never fails on its own account; and a batch each of whose allowed passes succeeds and
  changes the tree (it reaches its ceiling without a fixed point) returns, without
  error, the tree of its last pass after exactly \<open>Iterations\<close> passes.
\<close>
theorem ceiling_is_not_an_error:
  "(Analyze a scope n = Inl err \<longrightarrow>
      (\<exists>bt \<in> set a. \<exists>r \<in> set (Rules bt). \<exists>m. Apply r scope m = Inl err)) \<and>
   (reaches_ceiling (Rules b) scope (Iterations b) n \<longrightarrow>
      (\<exists>n'. Eval b scope n passes = (Inr n', passes + Iterations b) \<and>
            passes_result (Rules b) scope (Iterations b) n = Inr n' \<and>
            Analyze [b] scope n = Inr n'))"
proof (intro conjI impI)
  assume "Analyze a scope n = Inl err"
  then show "\<exists>bt \<in> set a. \<exists>r \<in> set (Rules bt). \<exists>m. Apply r scope m = Inl err"
    unfolding Analyze_def Analyze_run_def by (rule Analyze_batches_error_source)
next
  assume r: "reaches_ceiling (Rules b) scope (Iterations b) n"
  from reaches_ceiling_Eval_loop[OF r, of passes] obtain n' where
    1: "Eval_loop (Rules b) scope (Iterations b) n passes = (Inr n', passes + Iterations b)"
    and 2: "passes_result (Rules b) scope (Iterations b) n = Inr n'" by blast
  from reaches_ceiling_Eval_loop[OF r, of 0] 2 have
    3: "Eval_loop (Rules b) scope (Iterations b) n 0 = (Inr n', Iterations b)" by auto
  have "Analyze [b] scope n = Inr n'"
    using 3 by (simp add: Analyze_def Analyze_run_def Eval_def)
  then show "\<exists>n'. Eval b scope n passes = (Inr n', passes + Iterations b) \<and>
            passes_result (Rules b) scope (Iterations b) n = Inr n' \<and>
            Analyze [b] scope n = Inr n'"
    using 1 2 by (simp add: Eval_def)
qed

theorem ceiling_is_not_an_error_witness:
  "reaches_ceiling [\<lparr>rule_name = ''loop'', Apply = loop_rule\<rparr>] [] 3 (ResolvedTable mytable) \<and>
   Eval \<lparr>Desc = ''post-analyze'', Iterations = 3, Rules = [\<lparr>rule_name = ''loop'', Apply = loop_rule\<rparr>]\<rparr>
     [] (ResolvedTable mytable) 0 = (Inr (ResolvedTable (mytable\<lparr>tname := ''+++mytable''\<rparr>)), 3) \<and>
   Analyze [\<lparr>Desc = ''post-analyze'', Iterations = 3, Rules = [\<lparr>rule_name = ''loop'', Apply = loop_rule\<rparr>]\<rparr>]
     [] (ResolvedTable mytable) = Inr (ResolvedTable (mytable\<lparr>tname := ''+++mytable''\<rparr>))"
proof -
  let ?b = "\<lparr>Desc = ''post-analyze'', Iterations = 3, Rules = [\<lparr>rule_name = ''loop'', Apply = loop_rule\<rparr>]\<rparr>"
  have three: "(3::nat) = Suc (Suc (Suc 0))" by simp
  have r: "reaches_ceiling (Rules ?b) [] (Iterations ?b) (ResolvedTable mytable)"
    by (simp add: three loop_rule_def mytable_def)
  have p: "passes_result (Rules ?b) [] (Iterations ?b) (ResolvedTable mytable) =
      Inr (ResolvedTable (mytable\<lparr>tname := ''+++mytable''\<rparr>))"
    by (simp add: three loop_rule_def mytable_def)
  show ?thesis
    using r p ceiling_is_not_an_error[of "[]" "[]" "ResolvedTable mytable" "RuleFailure []" ?b 0]
    by auto
qed

lemma pushdown_bare_table:
  "pushdown_rule scope (ResolvedTable t) = Inr (ResolvedTable t)"
  by (simp add: pushdown_rule_def pushdown_node_def pushdown_table_def table_fields_def)

lemma loop_pass:
  "evalOnce [\<lparr>rule_name = ''pushdown'', Apply = pushdown_rule\<rparr>, \<lparr>rule_name = nm, Apply = loop_rule\<rparr>]
     scope (ResolvedTable t) False = Inr (ResolvedTable (t\<lparr>tname := CHR ''+'' # tname t\<rparr>), True)"
proof -
  have "tname t \<noteq> CHR ''+'' # tname t" by simp
  then have "t\<lparr>tname := CHR ''+'' # tname t\<rparr> \<noteq> t"
    by (metis Table.select_convs(1) Table.surjective Table.update_convs(1))
  then show ?thesis
    by (simp add: pushdown_bare_table loop_rule_def)
qed

lemma loop_reaches_ceiling:
  "reaches_ceiling [\<lparr>rule_name = ''pushdown'', Apply = pushdown_rule\<rparr>, \<lparr>rule_name = nm, Apply = loop_rule\<rparr>]
     scope k (ResolvedTable t)"
  by (induction k arbitrary: t) (simp_all add: loop_pass del: evalOnce.simps)

lemma loop_passes_result:
  "passes_result [\<lparr>rule_name = ''pushdown'', Apply = pushdown_rule\<rparr>, \<lparr>rule_name = nm, Apply = loop_rule\<rparr>]
     scope k (ResolvedTable t) = Inr (ResolvedTable (t\<lparr>tname := replicate k CHR ''+'' @ tname t\<rparr>))"
proof (induction k arbitrary: t)
  case 0
  then show ?case by simp
next
  case (Suc k)
  show ?case
    by (simp add: loop_pass Suc.IH replicate_app_Cons_same del: evalOnce.simps)
qed

lemma Eval_loop_unfold:
  "0 < k \<Longrightarrow> Eval_loop rs scope k n passes =
     (case evalOnce rs scope n False of
        Inl err \<Rightarrow> (Inl err, Suc passes)
      | Inr (n', changed) \<Rightarrow>
          if changed then Eval_loop rs scope (k - 1) n' (Suc passes) else (Inr n', Suc passes))"
  by (cases k) (simp_all split: sum.splits prod.splits)

lemma Eval_no_rules:
  "0 < Iterations b \<Longrightarrow> Rules b = [] \<Longrightarrow> Eval b scope n passes = (Inr n, Suc passes)"
  by (simp add: Eval_def Eval_loop_unfold)

lemma default_rules_mytable:
  "Eval_loop (DefaultRules mydb_ctx) [] 1000 (UnresolvedTable ''mytable'') passes =
     (Inr (ResolvedTable mytable), Suc (Suc passes))"
proof -
  have 1: "evalOnce (DefaultRules mydb_ctx) [] (UnresolvedTable ''mytable'') False =
      Inr (ResolvedTable mytable, True)"
    by (simp add: DefaultRules_def resolveTables_def resolveTables_node_def LookupTable_def
        mydb_ctx_def resolveNaturalJoins_def resolveNaturalJoins_node_def resolveStar_def
        resolveStar_node_def resolveColumns_def resolveColumns_node_def)
  have 2: "evalOnce (DefaultRules mydb_ctx) [] (ResolvedTable mytable) False =
      Inr (ResolvedTable mytable, False)"
    by (simp add: DefaultRules_def resolveTables_def resolveTables_node_def
        resolveNaturalJoins_def resolveNaturalJoins_node_def resolveStar_def
        resolveStar_node_def resolveColumns_def resolveColumns_node_def)
  show ?thesis
    by (simp add: Eval_loop_unfold 1 2 del: evalOnce.simps)
qed

text \<open>
  Claim C5. For every list of batches, scope and tree, \<open>Analyze\<close> returns after at most
  the sum of the iteration ceilings of its batches many passes. In the scenario of
  \<^verbatim>\<open>TestMaxIterations\<close> the rule added after analysis is applied in each of the 1000
  passes of its batch: with one pass of each validation batch and two of the default
  rules the run takes 1004 passes.
\<close>

theorem analyze_pass_bound:
  "(\<exists>res passes. Analyze_run a scope n = (res, passes) \<and>
       passes \<le> sum_list (map Iterations a)) \<and>
   Analyze_passes a scope n \<le> sum_list (map Iterations a) \<and>
   Analyze_run (Build (AddPostAnalyzeRule ''loop'' loop_rule (NewBuilder mydb_ctx))) []
       (UnresolvedTable ''mytable'') =
     (Inr (ResolvedTable (mytable\<lparr>tname := replicate 1000 CHR ''+'' @ ''mytable''\<rparr>)), 1004)"
proof -
  have 1: "Analyze_passes a scope n \<le> sum_list (map Iterations a)"
    using Analyze_batches_passes[of a scope n 0] by (simp add: Analyze_passes_def Analyze_run_def)
  then have 2: "\<exists>res passes. Analyze_run a scope n = (res, passes) \<and>
       passes \<le> sum_list (map Iterations a)"
    by (cases "Analyze_run a scope n") (simp add: Analyze_passes_def)
  let ?rs = "[\<lparr>rule_name = ''pushdown'', Apply = pushdown_rule\<rparr>, \<lparr>rule_name = ''loop'', Apply = loop_rule\<rparr>]"
  have 3: "Eval_loop ?rs [] 1000 (ResolvedTable mytable) p =
      (Inr (ResolvedTable (mytable\<lparr>tname := replicate 1000 CHR ''+'' @ tname mytable\<rparr>)), p + 1000)" for p
  proof -
    have "\<exists>n'. Eval_loop ?rs [] 1000 (ResolvedTable mytable) p = (Inr n', p + 1000) \<and>
        passes_result ?rs [] 1000 (ResolvedTable mytable) = Inr n'"
      by (rule reaches_ceiling_Eval_loop) (rule loop_reaches_ceiling)
    then show ?thesis
      by (auto simp: loop_passes_result simp del: passes_result.simps Eval_loop.simps)
  qed
  have n: "tname mytable = ''mytable''" by (simp add: mytable_def)
  let ?b1 = "\<lparr>Desc = ''pre-validation'', Iterations = 1000, Rules = []\<rparr>"
  let ?b2 = "\<lparr>Desc = ''default-rules'', Iterations = 1000, Rules = DefaultRules mydb_ctx\<rparr>"
  let ?b3 = "\<lparr>Desc = ''post-analyze'', Iterations = 1000, Rules = ?rs\<rparr>"
  let ?b4 = "\<lparr>Desc = ''post-validation'', Iterations = 1000, Rules = []\<rparr>"
  let ?final = "ResolvedTable (mytable\<lparr>tname := replicate 1000 CHR ''+'' @ ''mytable''\<rparr>)"
  have e1: "Eval ?b1 [] m p = (Inr m, Suc p)" for m p
    by (simp add: Eval_no_rules)
  have e2: "Eval ?b2 [] (UnresolvedTable ''mytable'') p = (Inr (ResolvedTable mytable), Suc (Suc p))" for p
    by (simp add: Eval_def default_rules_mytable del: Eval_loop.simps)
  have e3: "Eval ?b3 [] (ResolvedTable mytable) p = (Inr ?final, p + 1000)" for p
    using 3[of p] n by (simp add: Eval_def del: Eval_loop.simps)
  have e4: "Eval ?b4 [] m p = (Inr m, Suc p)" for m p
    by (simp add: Eval_no_rules)
  have b: "Build (AddPostAnalyzeRule ''loop'' loop_rule (NewBuilder mydb_ctx)) = [?b1, ?b2, ?b3, ?b4]"
    by (simp add: Build_def AddPostAnalyzeRule_def NewBuilder_def maxAnalysisIterations_def)
  have "Analyze_run (Build (AddPostAnalyzeRule ''loop'' loop_rule (NewBuilder mydb_ctx))) []
       (UnresolvedTable ''mytable'') = (Inr ?final, 1004)"
    unfolding Analyze_run_def b by (simp add: e1 e2 e3 e4)
  then show ?thesis using 1 2 by blast
qed

lemma Eval_loop_settles:
  assumes "evalOnce rs scope n False = Inr (n1, True)"
    and "evalOnce rs scope n1 False = Inr (n1, False)"
    and "1 < k"
  shows "Eval_loop rs scope k n passes = (Inr n1, Suc (Suc passes))"
proof -
  have k: "k = Suc (Suc (k - 2))" using assms(3) by simp
  show ?thesis by (subst k) (simp add: assms(1,2))
qed

lemma Eval_loop_fixed:
  assumes "evalOnce rs scope n False = Inr (n, False)" and "0 < k"
  shows "Eval_loop rs scope k n passes = (Inr n, Suc passes)"
  using assms by (cases k) simp_all

lemma Analyze_default_batches:
  assumes "Eval_loop (DefaultRules ctx) scope maxAnalysisIterations n (Suc 0) = (Inr n1, p1)"
    and "Eval_loop [\<lparr>rule_name = ''pushdown'', Apply = pushdown_rule\<rparr>] scope
           maxAnalysisIterations n1 p1 = (Inr n2, p2)"
  shows "Analyze (NewDefault ctx) scope n = Inr n2"
proof -
  have e1: "Eval \<lparr>Desc = ''pre-validation'', Iterations = maxAnalysisIterations, Rules = []\<rparr> scope m p
      = (Inr m, Suc p)" for m p
    by (simp add: Eval_no_rules maxAnalysisIterations_def)
  have e2: "Eval \<lparr>Desc = ''default-rules'', Iterations = maxAnalysisIterations, Rules = DefaultRules ctx\<rparr>
      scope n (Suc 0) = (Inr n1, p1)"
    using assms(1) by (simp add: Eval_def del: Eval_loop.simps)
  have e3: "Eval \<lparr>Desc = ''post-analyze'', Iterations = maxAnalysisIterations,
        Rules = [\<lparr>rule_name = ''pushdown'', Apply = pushdown_rule\<rparr>]\<rparr>
      scope n1 p1 = (Inr n2, p2)"
    using assms(2) by (simp add: Eval_def del: Eval_loop.simps)
  have e4: "Eval \<lparr>Desc = ''post-validation'', Iterations = maxAnalysisIterations, Rules = []\<rparr> scope m p
      = (Inr m, Suc p)" for m p
    by (simp add: Eval_no_rules maxAnalysisIterations_def)
  show ?thesis
    unfolding Analyze_def Analyze_run_def NewDefault_def Build_def NewBuilder_def
    by (simp add: e1 e2 e3 e4)
qed

lemma Analyze_default_run:
  assumes "evalOnce (DefaultRules ctx) scope n False = Inr (n1, True)"
    and "evalOnce (DefaultRules ctx) scope n1 False = Inr (n1, False)"
    and "evalOnce [\<lparr>rule_name = ''pushdown'', Apply = pushdown_rule\<rparr>] scope n1 False = Inr (n2, True)"
    and "evalOnce [\<lparr>rule_name = ''pushdown'', Apply = pushdown_rule\<rparr>] scope n2 False = Inr (n2, False)"
  shows "Analyze (NewDefault ctx) scope n = Inr n2"
proof -
  have k: "1 < maxAnalysisIterations" by (simp add: maxAnalysisIterations_def)
  note a = Eval_loop_settles[OF assms(1,2) k, of "Suc 0"]
  note b = Eval_loop_settles[OF assms(3,4) k, of "Suc (Suc (Suc 0))"]
  show ?thesis using a b by (rule Analyze_default_batches)
qed


lemma Analyze_default_fixed:
  assumes "evalOnce (DefaultRules ctx) scope n False = Inr (n, False)"
    and "evalOnce [\<lparr>rule_name = ''pushdown'', Apply = pushdown_rule\<rparr>] scope n False = Inr (n, False)"
  shows "Analyze (NewDefault ctx) scope n = Inr n"
proof -
  have k: "0 < maxAnalysisIterations" by (simp add: maxAnalysisIterations_def)
  note a = Eval_loop_fixed[OF assms(1) k, of "Suc 0"]
  note b = Eval_loop_fixed[OF assms(2) k, of "Suc (Suc 0)"]
  show ?thesis using a b by (rule Analyze_default_batches)
qed

lemmas rule_defs =
  DefaultRules_def resolveTables_def resolveTables_node_def LookupTable_def mydb_ctx_def
  resolveNaturalJoins_def resolveNaturalJoins_node_def resolveStar_def resolveStar_node_def
  expandStars_def resolveColumns_def resolveColumns_node_def resolve_ref_def column_matches_def
  Schema_def Table_Schema_def field_of_def

lemma mytable_fields:
  "tschema mytable = [\<lparr>Name = ''i'', Type = Int32, Source = ''mytable'', Nullable = False\<rparr>,
                \<lparr>Name = ''t'', Type = Text, Source = ''mytable'', Nullable = False\<rparr>]"
  "projection mytable = None" "pushdown mytable" "tname mytable = ''mytable''"
  "filters mytable = []"
  by (simp_all add: mytable_def)

section \<open>Properties of table and column resolution\<close>

lemma resolve_expr_resolved:
  "expr_resolved e \<Longrightarrow> resolve_expr schema scopes e = Inr e"
  by (induction e) simp_all

lemma resolve_exprs_resolved:
  "list_all expr_resolved es \<Longrightarrow> resolve_exprs schema scopes es = Inr es"
  by (induction es) (simp_all add: resolve_expr_resolved)

lemma resolveColumns_node_resolved:
  "Resolved n \<Longrightarrow> resolveColumns_node scope n = Inr n"
  by (cases n) (simp_all add: resolveColumns_node_def resolve_expr_resolved resolve_exprs_resolved)

lemma resolveColumns_resolved:
  "Resolved n \<Longrightarrow> resolveColumns scope n = Inr n"
  unfolding resolveColumns_def
proof (induction n)
  case (Project ps c)
  then show ?case using resolveColumns_node_resolved[of "Project ps c" scope] by simp
next
  case (Filter e c)
  then show ?case using resolveColumns_node_resolved[of "Filter e c" scope] by simp
next
  case (GroupBy agg grp c)
  then show ?case using resolveColumns_node_resolved[of "GroupBy agg grp c" scope] by simp
next
  case (InnerJoin l r e)
  then show ?case using resolveColumns_node_resolved[of "InnerJoin l r e" scope] by simp
qed (simp_all add: resolveColumns_node_def)

lemma resolveTables_resolved:
  "Resolved n \<Longrightarrow> resolveTables ctx scope n = Inr n"
  unfolding resolveTables_def
  by (induction n) (simp_all add: resolveTables_node_def)

lemma resolveNaturalJoins_resolved:
  "Resolved n \<Longrightarrow> resolveNaturalJoins scope n = Inr n"
  unfolding resolveNaturalJoins_def
  by (induction n) (simp_all add: resolveNaturalJoins_node_def)

lemma resolve_exprs_fail:
  assumes "list_all expr_resolved pre" and "resolve_expr schema scopes e = Inl err"
  shows "resolve_exprs schema scopes (pre @ e # post) = Inl err"
  using assms(1)
proof (induction pre)
  case Nil
  show ?case using assms(2) by simp
next
  case (Cons x xs)
  then show ?case by (simp add: resolve_expr_resolved)
qed

lemma column_matches_absent:
  "\<forall>col \<in> set schema. Name col \<noteq> nm \<Longrightarrow> column_matches q nm schema = []"
  unfolding column_matches_def
  using filter_enumerate_empty[of "\<lambda>col. Name col = nm \<and> (q = [] \<or> Source col = q)" 0 schema]
  by simp

lemma resolve_ref_absent:
  assumes "\<forall>col \<in> set schema. Name col \<noteq> nm"
    and "\<forall>s \<in> set scopes. \<forall>col \<in> set s. Name col \<noteq> nm"
  shows "resolve_ref schema scopes q nm e = Inl (ColumnNotFound nm)"
proof -
  have "\<not> list_ex (\<lambda>s. column_matches q nm s \<noteq> []) scopes"
    using assms(2) by (simp add: list_ex_iff column_matches_absent)
  then show ?thesis
    using assms(1) by (simp add: resolve_ref_def column_matches_absent)
qed

lemma Eval_loop_first_pass_error:
  "0 < k \<Longrightarrow> evalOnce rs scope n False = Inl err \<Longrightarrow>
   Eval_loop rs scope k n passes = (Inl err, Suc passes)"
  by (cases k) simp_all

lemma Analyze_default_first_pass_error:
  assumes "evalOnce (DefaultRules ctx) scope n False = Inl err"
  shows "Analyze (NewDefault ctx) scope n = Inl err"
proof -
  have e1: "Eval \<lparr>Desc = ''pre-validation'', Iterations = maxAnalysisIterations, Rules = []\<rparr> scope n 0
      = (Inr n, Suc 0)"
    by (simp add: Eval_no_rules maxAnalysisIterations_def)
  have e2: "Eval \<lparr>Desc = ''default-rules'', Iterations = maxAnalysisIterations, Rules = DefaultRules ctx\<rparr>
      scope n (Suc 0) = (Inl err, Suc (Suc 0))"
    using assms by (simp add: Eval_def Eval_loop_first_pass_error maxAnalysisIterations_def
        del: Eval_loop.simps)
  show ?thesis
    unfolding Analyze_def Analyze_run_def NewDefault_def Build_def NewBuilder_def
    by (simp add: e1 e2)
qed

section \<open>Properties of natural-join expansion\<close>

lemma findCol_Some:
  "findCol sch nm = Some (i, c) \<Longrightarrow> i < length sch \<and> sch ! i = c \<and> Name c = nm"
proof (induction sch arbitrary: i)
  case Nil
  then show ?case by simp
next
  case (Cons x xs)
  show ?case
  proof (cases "Name x = nm")
    case True
    then show ?thesis using Cons.prems by auto
  next
    case False
    then obtain j where j: "findCol xs nm = Some (j, c)" and i: "i = Suc j"
      using Cons.prems by (auto split: option.splits)
    then show ?thesis using Cons.IH[OF j] by simp
  qed
qed

lemma findCol_None: "(findCol sch nm = None) = (nm \<notin> Name ` set sch)"
  by (induction sch) (auto split: option.splits)

lemma fields_ok_Nil: "fields_ok [] e \<Longrightarrow> fields_ok schema e"
  by (induction e) simp_all

lemma fields_ok_left:
  "i < length ls \<Longrightarrow> fields_ok (ls @ rs) (field_of (i, ls ! i))"
  by (simp add: field_of_def nth_append)

lemma fields_ok_right:
  "j < length rs \<Longrightarrow> fields_ok (ls @ rs) (field_of (length ls + j, rs ! j))"
  by (simp add: field_of_def nth_append)

lemma fields_ok_foldl_And:
  "fields_ok schema c \<Longrightarrow> list_all (fields_ok schema) cs \<Longrightarrow> fields_ok schema (foldl And c cs)"
  by (induction cs arbitrary: c) simp_all

lemma fields_ok_JoinAnd:
  "list_all (fields_ok schema) cs \<Longrightarrow> fields_ok schema (JoinAnd cs)"
  by (cases cs) (simp_all add: fields_ok_foldl_And)

lemma resolved_foldl_And:
  "expr_resolved c \<Longrightarrow> list_all expr_resolved cs \<Longrightarrow> expr_resolved (foldl And c cs)"
  by (induction cs arbitrary: c) simp_all

lemma resolved_JoinAnd:
  "list_all expr_resolved cs \<Longrightarrow> expr_resolved (JoinAnd cs)"
  by (cases cs) (simp_all add: resolved_foldl_And)

lemma resolved_field_of: "expr_resolved (field_of p)"
  by (simp add: field_of_def)

lemma expr_column_field_of: "expr_column (field_of (i, col)) = col"
  by (simp add: field_of_def)

lemma common_columns_sound:
  "(i, lcol, j, rcol) \<in> set (common_columns k ls rs) \<Longrightarrow>
   k \<le> i \<and> i - k < length ls \<and> ls ! (i - k) = lcol \<and> j < length rs \<and> rs ! j = rcol \<and>
   Name rcol = Name lcol"
proof (induction ls arbitrary: k)
  case Nil
  then show ?case by simp
next
  case (Cons x xs)
  show ?case
  proof (cases "(i, lcol, j, rcol) \<in> set (common_columns (Suc k) xs rs)")
    case True
    from Cons.IH[OF True] show ?thesis
      by (auto simp: Suc_diff_le)
  next
    case False
    then have "findCol rs (Name x) = Some (j, rcol) \<and> i = k \<and> lcol = x"
      using Cons.prems by (auto split: option.splits)
    then show ?thesis using findCol_Some[of rs "Name x" j rcol] by simp
  qed
qed

lemma common_columns_fields:
  "map (\<lambda>(i, lcol, j, rcol). lcol) (common_columns k ls rs) =
   filter (\<lambda>c. Name c \<in> Name ` set rs) ls"
proof (induction ls arbitrary: k)
  case Nil
  then show ?case by simp
next
  case (Cons x xs)
  show ?case
  proof (cases "findCol rs (Name x)")
    case None
    then show ?thesis using Cons.IH findCol_None[of rs "Name x"] by simp
  next
    case (Some p)
    then have "Name x \<in> Name ` set rs" using findCol_None[of rs "Name x"] by simp
    then show ?thesis using Cons.IH Some by (cases p) simp
  qed
qed

lemma map_snd_filter_enumerate:
  "map snd (filter (\<lambda>(i, c). P c) (enumerate k xs)) = filter P xs"
  by (induction xs arbitrary: k) simp_all

lemma Schema_CrossJoin:
  "Resolved l \<Longrightarrow> Resolved r \<Longrightarrow> Schema (CrossJoin l r) = Schema l @ Schema r"
  by (simp add: Schema_def)

lemma Schema_InnerJoin:
  "Resolved l \<Longrightarrow> Resolved r \<Longrightarrow> expr_resolved e \<Longrightarrow>
   Schema (InnerJoin l r e) = Schema l @ Schema r"
  by (simp add: Schema_def)

lemma Schema_unresolved: "\<not> Resolved n \<Longrightarrow> Schema n = []"
  by (simp add: Schema_def)

lemma expandNaturalJoin_eq:
  "expandNaturalJoin l r =
     Project (join_projection (Schema l) (Schema r))
       (InnerJoin l r (JoinAnd (join_conditions (Schema l) (Schema r))))"
  by (simp add: expandNaturalJoin_def)

lemma join_conditions_ok:
  "list_all (fields_ok (ls @ rs)) (join_conditions ls rs)"
proof -
  have "\<And>i lcol j rcol. (i, lcol, j, rcol) \<in> set (common_columns 0 ls rs) \<Longrightarrow>
      fields_ok (ls @ rs) (Equals (field_of (i, lcol)) (field_of (length ls + j, rcol)))"
  proof -
    fix i lcol j rcol
    assume "(i, lcol, j, rcol) \<in> set (common_columns 0 ls rs)"
    from common_columns_sound[OF this]
    have "i < length ls" "ls ! i = lcol" "j < length rs" "rs ! j = rcol" by simp_all
    then show "fields_ok (ls @ rs) (Equals (field_of (i, lcol)) (field_of (length ls + j, rcol)))"
      using fields_ok_left[of i ls rs] fields_ok_right[of j rs ls] by simp
  qed
  then show ?thesis
    by (auto simp: join_conditions_def list_all_iff)
qed

lemma join_conditions_resolved:
  "list_all expr_resolved (join_conditions ls rs)"
  by (auto simp: join_conditions_def list_all_iff resolved_field_of)

lemma join_projection_resolved:
  "list_all expr_resolved (join_projection ls rs)"
  by (auto simp: join_projection_def list_all_iff resolved_field_of)

lemma join_projection_ok:
  "list_all (fields_ok (ls @ rs)) (join_projection ls rs)"
proof -
  have 1: "\<And>i lcol j rcol. (i, lcol, j, rcol) \<in> set (common_columns 0 ls rs) \<Longrightarrow>
      fields_ok (ls @ rs) (field_of (i, lcol))"
  proof -
    fix i lcol j rcol
    assume "(i, lcol, j, rcol) \<in> set (common_columns 0 ls rs)"
    from common_columns_sound[OF this]
    have "i < length ls" "ls ! i = lcol" by simp_all
    then show "fields_ok (ls @ rs) (field_of (i, lcol))"
      using fields_ok_left[of i ls rs] by simp
  qed
  have 2: "\<And>p. p \<in> set (enumerate 0 ls) \<Longrightarrow> fields_ok (ls @ rs) (field_of p)"
  proof -
    fix p assume "p \<in> set (enumerate 0 ls)"
    then have "fst p < length ls" "snd p = ls ! fst p"
      by (auto simp: in_set_enumerate_eq)
    then show "fields_ok (ls @ rs) (field_of p)"
      using fields_ok_left[of "fst p" ls rs] by (cases p) simp
  qed
  have 3: "\<And>p. p \<in> set (enumerate (length ls) rs) \<Longrightarrow> fields_ok (ls @ rs) (field_of p)"
  proof -
    fix p assume "p \<in> set (enumerate (length ls) rs)"
    then have "length ls \<le> fst p" "fst p - length ls < length rs" "snd p = rs ! (fst p - length ls)"
      by (auto simp: in_set_enumerate_eq)
    then show "fields_ok (ls @ rs) (field_of p)"
      using fields_ok_right[of "fst p - length ls" rs ls] by (cases p) simp
  qed
  show ?thesis
    using 1 2 3 by (auto simp: join_projection_def list_all_iff)
qed

lemma join_projection_columns:
  "map expr_column (join_projection ls rs) =
     filter (\<lambda>c. Name c \<in> Name ` set rs) ls @
     filter (\<lambda>c. Name c \<notin> Name ` set rs) ls @
     filter (\<lambda>c. Name c \<notin> Name ` set ls) rs"
proof -
  have a: "map expr_column (map (\<lambda>(i, lcol, j, rcol). field_of (i, lcol)) (common_columns 0 ls rs)) =
      map (\<lambda>(i, lcol, j, rcol). lcol) (common_columns 0 ls rs)"
    by (auto simp: expr_column_field_of)
  have b: "map expr_column (map field_of xs) = map snd xs" for xs :: "(nat \<times> Column) list"
    by (induction xs) (auto simp: expr_column_field_of)
  have c: "filter (\<lambda>(i, lcol). findCol rs (Name lcol) = None) (enumerate 0 ls) =
      filter (\<lambda>(i, c). Name c \<notin> Name ` set rs) (enumerate 0 ls)"
    by (simp add: findCol_None)
  have d: "filter (\<lambda>(j, rcol). findCol ls (Name rcol) = None) (enumerate (length ls) rs) =
      filter (\<lambda>(i, c). Name c \<notin> Name ` set ls) (enumerate (length ls) rs)"
    by (simp add: findCol_None)
  show ?thesis
    unfolding join_projection_def map_append a b c d
    by (simp add: common_columns_fields map_snd_filter_enumerate)
qed

lemma expandNaturalJoin_resolved:
  "Resolved l \<Longrightarrow> Resolved r \<Longrightarrow> Resolved (expandNaturalJoin l r)"
  by (simp add: expandNaturalJoin_eq join_projection_resolved resolved_JoinAnd join_conditions_resolved)

lemma expandNaturalJoin_positional:
  assumes "Resolved l" "Resolved r" "positional l" "positional r"
  shows "positional (expandNaturalJoin l r)"
proof -
  let ?c = "JoinAnd (join_conditions (Schema l) (Schema r))"
  have c: "expr_resolved ?c" by (simp add: resolved_JoinAnd join_conditions_resolved)
  have s: "Schema (InnerJoin l r ?c) = Schema l @ Schema r"
    using assms(1,2) c by (rule Schema_InnerJoin)
  have "fields_ok (Schema (CrossJoin l r)) ?c"
    using assms(1,2) by (simp add: Schema_CrossJoin fields_ok_JoinAnd join_conditions_ok)
  then show ?thesis
    using assms(3,4) unfolding expandNaturalJoin_eq by (simp add: s join_projection_ok)
qed

lemma expandNaturalJoin_schema:
  assumes "Resolved l" "Resolved r"
  shows "Schema (expandNaturalJoin l r) =
     filter (\<lambda>c. Name c \<in> Name ` set (Schema r)) (Schema l) @
     filter (\<lambda>c. Name c \<notin> Name ` set (Schema r)) (Schema l) @
     filter (\<lambda>c. Name c \<notin> Name ` set (Schema l)) (Schema r)"
proof -
  have "Resolved (expandNaturalJoin l r)" using assms by (rule expandNaturalJoin_resolved)
  then have "Schema (expandNaturalJoin l r) = node_schema (expandNaturalJoin l r)"
    by (simp only: Schema_def if_True)
  also have "\<dots> = map expr_column (join_projection (Schema l) (Schema r))"
    by (simp only: expandNaturalJoin_eq node_schema.simps)
  finally show ?thesis by (simp only: join_projection_columns)
qed

lemma resolveNaturalJoins_node_props:
  assumes "positional n"
  shows "\<exists>n'. resolveNaturalJoins_node n = Inr n' \<and> positional n' \<and> (Resolved n \<longrightarrow> n' = n)"
proof (cases n)
  case (NaturalJoin l r)
  then show ?thesis
    using assms by (simp add: resolveNaturalJoins_node_def expandNaturalJoin_positional)
qed (use assms in \<open>simp_all add: resolveNaturalJoins_node_def\<close>)

lemma fields_ok_child:
  assumes "Resolved c \<longrightarrow> c' = c" and "fields_ok (Schema c) e"
  shows "fields_ok (Schema c') e"
proof (cases "Resolved c")
  case True
  then show ?thesis using assms by simp
next
  case False
  then show ?thesis using assms(2) by (simp add: Schema_unresolved fields_ok_Nil)
qed

lemma fields_ok_children:
  assumes "Resolved l \<longrightarrow> l' = l" and "Resolved r \<longrightarrow> r' = r"
    and "fields_ok (Schema (CrossJoin l r)) e"
  shows "fields_ok (Schema (CrossJoin l' r')) e"
proof (cases "Resolved l \<and> Resolved r")
  case True
  then show ?thesis using assms by simp
next
  case False
  then have "Schema (CrossJoin l r) = []" by (auto simp: Schema_def)
  then show ?thesis using assms(3) by (simp add: fields_ok_Nil)
qed

lemma list_all_fields_ok_child:
  assumes "Resolved c \<longrightarrow> c' = c" and "list_all (fields_ok (Schema c)) es"
  shows "list_all (fields_ok (Schema c')) es"
  using assms fields_ok_child[of c c'] by (auto simp: list_all_iff)

lemma resolveNaturalJoins_props:
  "positional n \<Longrightarrow>
   \<exists>n'. TransformUp n resolveNaturalJoins_node = Inr n' \<and> positional n' \<and> (Resolved n \<longrightarrow> n' = n)"
proof (induction n)
  case (UnresolvedTable x)
  then show ?case using resolveNaturalJoins_node_props[of "UnresolvedTable x"] by simp
next
  case (ResolvedTable x)
  then show ?case using resolveNaturalJoins_node_props[of "ResolvedTable x"] by simp
next
  case (Project ps c)
  then obtain c' where c: "TransformUp c resolveNaturalJoins_node = Inr c'" "positional c'"
    "Resolved c \<longrightarrow> c' = c" by auto
  have "list_all (fields_ok (Schema c')) ps"
    using c(3) Project.prems by (simp add: list_all_fields_ok_child)
  then have "positional (Project ps c')" using c(2) by simp
  from resolveNaturalJoins_node_props[OF this] show ?case using c(1,3) by auto
next
  case (Filter e c)
  then obtain c' where c: "TransformUp c resolveNaturalJoins_node = Inr c'" "positional c'"
    "Resolved c \<longrightarrow> c' = c" by auto
  have "fields_ok (Schema c') e"
    using c(3) Filter.prems fields_ok_child[of c c' e] by simp
  then have "positional (Filter e c')" using c(2) by simp
  from resolveNaturalJoins_node_props[OF this] show ?case using c(1,3) by auto
next
  case (GroupBy agg grp c)
  then obtain c' where c: "TransformUp c resolveNaturalJoins_node = Inr c'" "positional c'"
    "Resolved c \<longrightarrow> c' = c" by auto
  have "list_all (fields_ok (Schema c')) agg" "list_all (fields_ok (Schema c')) grp"
    using c(3) GroupBy.prems by (simp_all add: list_all_fields_ok_child)
  then have "positional (GroupBy agg grp c')" using c(2) by simp
  from resolveNaturalJoins_node_props[OF this] show ?case using c(1,3) by auto
next
  case (Limit k c)
  then obtain c' where c: "TransformUp c resolveNaturalJoins_node = Inr c'" "positional c'"
    "Resolved c \<longrightarrow> c' = c" by auto
  then have "positional (Limit k c')" by simp
  from resolveNaturalJoins_node_props[OF this] show ?case using c(1,3) by auto
next
  case (InnerJoin l r e)
  then obtain l' where l: "TransformUp l resolveNaturalJoins_node = Inr l'" "positional l'"
    "Resolved l \<longrightarrow> l' = l" by auto
  from InnerJoin obtain r' where r: "TransformUp r resolveNaturalJoins_node = Inr r'" "positional r'"
    "Resolved r \<longrightarrow> r' = r" by auto
  have "fields_ok (Schema (CrossJoin l' r')) e"
    using l(3) r(3) InnerJoin.prems fields_ok_children[of l l' r r' e] by simp
  then have "positional (InnerJoin l' r' e)" using l(2) r(2) by simp
  from resolveNaturalJoins_node_props[OF this] show ?case using l(1,3) r(1,3) by auto
next
  case (CrossJoin l r)
  then obtain l' where l: "TransformUp l resolveNaturalJoins_node = Inr l'" "positional l'"
    "Resolved l \<longrightarrow> l' = l" by auto
  from CrossJoin obtain r' where r: "TransformUp r resolveNaturalJoins_node = Inr r'" "positional r'"
    "Resolved r \<longrightarrow> r' = r" by auto
  have "positional (CrossJoin l' r')" using l(2) r(2) by simp
  from resolveNaturalJoins_node_props[OF this] show ?case using l(1,3) r(1,3) by auto
next
  case (NaturalJoin l r)
  then obtain l' where l: "TransformUp l resolveNaturalJoins_node = Inr l'" "positional l'"
    "Resolved l \<longrightarrow> l' = l" by auto
  from NaturalJoin obtain r' where r: "TransformUp r resolveNaturalJoins_node = Inr r'" "positional r'"
    "Resolved r \<longrightarrow> r' = r" by auto
  have "positional (NaturalJoin l' r')" using l r by simp
  from resolveNaturalJoins_node_props[OF this] show ?case using l(1) r(1) by auto
next
  case (TableAlias a c)
  then obtain c' where c: "TransformUp c resolveNaturalJoins_node = Inr c'" "positional c'"
    "Resolved c \<longrightarrow> c' = c" by auto
  then have "positional (TableAlias a c')" by simp
  from resolveNaturalJoins_node_props[OF this] show ?case using c(1,3) by auto
next
  case (Describe c)
  then obtain c' where c: "TransformUp c resolveNaturalJoins_node = Inr c'" "positional c'"
    "Resolved c \<longrightarrow> c' = c" by auto
  then have "positional (Describe c')" by simp
  from resolveNaturalJoins_node_props[OF this] show ?case using c(1,3) by auto
next
  case (DecoratedNode d c)
  then obtain c' where c: "TransformUp c resolveNaturalJoins_node = Inr c'" "positional c'"
    "Resolved c \<longrightarrow> c' = c" by auto
  then have "positional (DecoratedNode d c')" by simp
  from resolveNaturalJoins_node_props[OF this] show ?case using c(1,3) by auto
qed

text \<open>
  Claim C2. Natural-join expansion keeps a plan positionally correct: if every
  \<open>GetField\<close> of the plan points at the column of its recorded table and name in the
  schema of the node that owns it, so does every \<open>GetField\<close> of the rewritten plan. A
  natural join of two resolved sides becomes a projection over the inner join of the
  same sides; the fields of the projection and of the join condition, which is the
  conjunction of the equalities over the columns common by name, point into the
  concatenated schema of the two sides; and the schema of the result is the common
  columns, the other left columns and the right columns that are not duplicates.
\<close>
theorem natural_join_positional:
  "(positional n \<longrightarrow>
      (\<exists>n'. resolveNaturalJoins scope n = Inr n' \<and> positional n')) \<and>
   (Resolved l \<and> Resolved r \<and> positional l \<and> positional r \<longrightarrow>
      resolveNaturalJoins scope (NaturalJoin l r) = Inr (expandNaturalJoin l r) \<and>
      (\<exists>ps cond. expandNaturalJoin l r = Project ps (InnerJoin l r cond) \<and>
          list_all (fields_ok (Schema l @ Schema r)) ps \<and>
          fields_ok (Schema l @ Schema r) cond \<and>
          cond = JoinAnd (map (\<lambda>(i, lcol, j, rcol).
                   Equals (field_of (i, lcol)) (field_of (length (Schema l) + j, rcol)))
                   (common_columns 0 (Schema l) (Schema r)))) \<and>
      Schema (expandNaturalJoin l r) =
        filter (\<lambda>c. Name c \<in> Name ` set (Schema r)) (Schema l) @
        filter (\<lambda>c. Name c \<notin> Name ` set (Schema r)) (Schema l) @
        filter (\<lambda>c. Name c \<notin> Name ` set (Schema l)) (Schema r))"
proof (intro conjI impI)
  assume "positional n"
  from resolveNaturalJoins_props[OF this]
  show "\<exists>n'. resolveNaturalJoins scope n = Inr n' \<and> positional n'"
    by (auto simp: resolveNaturalJoins_def)
next
  assume a: "Resolved l \<and> Resolved r \<and> positional l \<and> positional r"
  have l: "TransformUp l resolveNaturalJoins_node = Inr l"
    using a resolveNaturalJoins_props[of l] by auto
  have r: "TransformUp r resolveNaturalJoins_node = Inr r"
    using a resolveNaturalJoins_props[of r] by auto
  show "resolveNaturalJoins scope (NaturalJoin l r) = Inr (expandNaturalJoin l r)"
    using a l r by (simp add: resolveNaturalJoins_def resolveNaturalJoins_node_def)
  show "\<exists>ps cond. expandNaturalJoin l r = Project ps (InnerJoin l r cond) \<and>
          list_all (fields_ok (Schema l @ Schema r)) ps \<and>
          fields_ok (Schema l @ Schema r) cond \<and>
          cond = JoinAnd (map (\<lambda>(i, lcol, j, rcol).
                   Equals (field_of (i, lcol)) (field_of (length (Schema l) + j, rcol)))
                   (common_columns 0 (Schema l) (Schema r)))"
    using join_projection_ok[of "Schema l" "Schema r"]
      fields_ok_JoinAnd[OF join_conditions_ok[of "Schema l" "Schema r"]]
    by (simp add: expandNaturalJoin_eq join_conditions_def)
  show "Schema (expandNaturalJoin l r) =
        filter (\<lambda>c. Name c \<in> Name ` set (Schema r)) (Schema l) @
        filter (\<lambda>c. Name c \<notin> Name ` set (Schema r)) (Schema l) @
        filter (\<lambda>c. Name c \<notin> Name ` set (Schema l)) (Schema r)"
    using a by (simp add: expandNaturalJoin_schema)
qed

lemma mix_left_schema:
  "Schema (InnerJoin (ResolvedTable mix_table) (ResolvedTable mix_table2)
      (Equals (GetField 0 Int32 ''mytable'' ''i'' False) (GetField 3 Int32 ''mytable2'' ''i2'' False))) =
   tschema mix_table @ tschema mix_table2"
  by (simp add: Schema_def Table_Schema_def mix_table_def mix_table2_def)

lemma mix_right_schema: "Schema (ResolvedTable mix_table3) = tschema mix_table3"
  by (simp add: Schema_def Table_Schema_def mix_table3_def)

lemma mix_expand:
  "expandNaturalJoin
     (InnerJoin (ResolvedTable mix_table) (ResolvedTable mix_table2)
        (Equals (GetField 0 Int32 ''mytable'' ''i'' False) (GetField 3 Int32 ''mytable2'' ''i2'' False)))
     (ResolvedTable mix_table3) =
   Project [GetField 0 Int32 ''mytable'' ''i'' False,
            GetField 4 Float64 ''mytable2'' ''f2'' False,
            GetField 1 Float64 ''mytable'' ''f'' False,
            GetField 2 Text ''mytable'' ''t'' False,
            GetField 3 Int32 ''mytable2'' ''i2'' False,
            GetField 5 Text ''mytable2'' ''t2'' False,
            GetField 8 Text ''mytable3'' ''t3'' False]
     (InnerJoin
        (InnerJoin (ResolvedTable mix_table) (ResolvedTable mix_table2)
           (Equals (GetField 0 Int32 ''mytable'' ''i'' False) (GetField 3 Int32 ''mytable2'' ''i2'' False)))
        (ResolvedTable mix_table3)
        (And (Equals (GetField 0 Int32 ''mytable'' ''i'' False) (GetField 6 Int32 ''mytable3'' ''i'' False))
             (Equals (GetField 4 Float64 ''mytable2'' ''f2'' False) (GetField 7 Float64 ''mytable3'' ''f2'' False))))"
  unfolding expandNaturalJoin_def mix_left_schema mix_right_schema
  by (simp add: join_projection_def join_conditions_def mix_table_def mix_table2_def
      mix_table3_def field_of_def)

theorem natural_join_positional_witness:
  "positional (Project [Star []]
      (NaturalJoin
        (InnerJoin (ResolvedTable mix_table) (ResolvedTable mix_table2)
           (Equals (GetField 0 Int32 ''mytable'' ''i'' False) (GetField 3 Int32 ''mytable2'' ''i2'' False)))
        (ResolvedTable mix_table3))) \<and>
   positional (Project [Star []]
      (Project [GetField 0 Int32 ''mytable'' ''i'' False,
            GetField 4 Float64 ''mytable2'' ''f2'' False,
            GetField 1 Float64 ''mytable'' ''f'' False,
            GetField 2 Text ''mytable'' ''t'' False,
            GetField 3 Int32 ''mytable2'' ''i2'' False,
            GetField 5 Text ''mytable2'' ''t2'' False,
            GetField 8 Text ''mytable3'' ''t3'' False]
     (InnerJoin
        (InnerJoin (ResolvedTable mix_table) (ResolvedTable mix_table2)
           (Equals (GetField 0 Int32 ''mytable'' ''i'' False) (GetField 3 Int32 ''mytable2'' ''i2'' False)))
        (ResolvedTable mix_table3)
        (And (Equals (GetField 0 Int32 ''mytable'' ''i'' False) (GetField 6 Int32 ''mytable3'' ''i'' False))
             (Equals (GetField 4 Float64 ''mytable2'' ''f2'' False) (GetField 7 Float64 ''mytable3'' ''f2'' False)))))) \<and>
   Schema (expandNaturalJoin
     (InnerJoin (ResolvedTable mix_table) (ResolvedTable mix_table2)
        (Equals (GetField 0 Int32 ''mytable'' ''i'' False) (GetField 3 Int32 ''mytable2'' ''i2'' False)))
     (ResolvedTable mix_table3)) =
   [\<lparr>Name = ''i'', Type = Int32, Source = ''mytable'', Nullable = False\<rparr>,
    \<lparr>Name = ''f2'', Type = Float64, Source = ''mytable2'', Nullable = False\<rparr>,
    \<lparr>Name = ''f'', Type = Float64, Source = ''mytable'', Nullable = False\<rparr>,
    \<lparr>Name = ''t'', Type = Text, Source = ''mytable'', Nullable = False\<rparr>,
    \<lparr>Name = ''i2'', Type = Int32, Source = ''mytable2'', Nullable = False\<rparr>,
    \<lparr>Name = ''t2'', Type = Text, Source = ''mytable2'', Nullable = False\<rparr>,
    \<lparr>Name = ''t3'', Type = Text, Source = ''mytable3'', Nullable = False\<rparr>]"
proof -
  let ?l = "InnerJoin (ResolvedTable mix_table) (ResolvedTable mix_table2)
        (Equals (GetField 0 Int32 ''mytable'' ''i'' False) (GetField 3 Int32 ''mytable2'' ''i2'' False))"
  let ?r = "ResolvedTable mix_table3"
  let ?n = "Project [Star []] (NaturalJoin ?l ?r)"
  have c: "Schema (CrossJoin (ResolvedTable mix_table) (ResolvedTable mix_table2)) =
      tschema mix_table @ tschema mix_table2"
    by (simp add: Schema_def Table_Schema_def mix_table_def mix_table2_def)
  have pl: "positional ?l"
    by (simp add: c) (simp add: mix_table_def mix_table2_def)
  have p: "positional ?n" using pl by simp
  have rl: "Resolved ?l \<and> Resolved ?r \<and> positional ?l \<and> positional ?r" using pl by simp
  have run: "resolveNaturalJoins [] ?n = Inr (Project [Star []] (expandNaturalJoin ?l ?r))"
    by (simp add: resolveNaturalJoins_def resolveNaturalJoins_node_def)
  have A: "\<exists>n'. resolveNaturalJoins [] ?n = Inr n' \<and> positional n'"
    using p natural_join_positional[of ?n "[]" ?l ?r] by blast
  have B: "Schema (expandNaturalJoin ?l ?r) =
        filter (\<lambda>c. Name c \<in> Name ` set (Schema ?r)) (Schema ?l) @
        filter (\<lambda>c. Name c \<notin> Name ` set (Schema ?r)) (Schema ?l) @
        filter (\<lambda>c. Name c \<notin> Name ` set (Schema ?l)) (Schema ?r)"
    using rl natural_join_positional[of ?n "[]" ?l ?r] by blast
  have f: "filter (\<lambda>c. Name c \<in> Name ` set (tschema mix_table3)) (tschema mix_table @ tschema mix_table2) @
        filter (\<lambda>c. Name c \<notin> Name ` set (tschema mix_table3)) (tschema mix_table @ tschema mix_table2) @
        filter (\<lambda>c. Name c \<notin> Name ` set (tschema mix_table @ tschema mix_table2)) (tschema mix_table3) =
   [\<lparr>Name = ''i'', Type = Int32, Source = ''mytable'', Nullable = False\<rparr>,
    \<lparr>Name = ''f2'', Type = Float64, Source = ''mytable2'', Nullable = False\<rparr>,
    \<lparr>Name = ''f'', Type = Float64, Source = ''mytable'', Nullable = False\<rparr>,
    \<lparr>Name = ''t'', Type = Text, Source = ''mytable'', Nullable = False\<rparr>,
    \<lparr>Name = ''i2'', Type = Int32, Source = ''mytable2'', Nullable = False\<rparr>,
    \<lparr>Name = ''t2'', Type = Text, Source = ''mytable2'', Nullable = False\<rparr>,
    \<lparr>Name = ''t3'', Type = Text, Source = ''mytable3'', Nullable = False\<rparr>]"
    by (simp add: mix_table_def mix_table2_def mix_table3_def)
  have C: "positional (Project [Star []] (expandNaturalJoin ?l ?r))"
    using A run by simp
  show ?thesis
    using p C[unfolded mix_expand] B[unfolded mix_left_schema mix_right_schema f]
    by (simp only: simp_thms)
qed

section \<open>Properties of pushdown\<close>

text \<open>
  An induction rule for plans rewritten bottom-up, then what pushdown keeps: a resolved
  plan stays resolved, the fields, predicates and narrowable tables of a plan do not
  grow, and a plan that pushdown has produced is returned unchanged by pushdown.
\<close>

lemma TransformUp_induct [consumes 1, case_names UnresolvedTable ResolvedTable Project Filter
    GroupBy Limit InnerJoin CrossJoin NaturalJoin TableAlias Describe DecoratedNode]:
  assumes "TransformUp n f = Inr n'"
    and "\<And>nm n'. f (UnresolvedTable nm) = Inr n' \<Longrightarrow> Q (UnresolvedTable nm) n'"
    and "\<And>t n'. f (ResolvedTable t) = Inr n' \<Longrightarrow> Q (ResolvedTable t) n'"
    and "\<And>ps c c' n'. TransformUp c f = Inr c' \<Longrightarrow> Q c c' \<Longrightarrow> f (Project ps c') = Inr n' \<Longrightarrow>
           Q (Project ps c) n'"
    and "\<And>e c c' n'. TransformUp c f = Inr c' \<Longrightarrow> Q c c' \<Longrightarrow> f (Filter e c') = Inr n' \<Longrightarrow>
           Q (Filter e c) n'"
    and "\<And>agg grp c c' n'. TransformUp c f = Inr c' \<Longrightarrow> Q c c' \<Longrightarrow>
           f (GroupBy agg grp c') = Inr n' \<Longrightarrow> Q (GroupBy agg grp c) n'"
    and "\<And>k c c' n'. TransformUp c f = Inr c' \<Longrightarrow> Q c c' \<Longrightarrow> f (Limit k c') = Inr n' \<Longrightarrow>
           Q (Limit k c) n'"
    and "\<And>l r e l' r' n'. TransformUp l f = Inr l' \<Longrightarrow> TransformUp r f = Inr r' \<Longrightarrow>
           Q l l' \<Longrightarrow> Q r r' \<Longrightarrow> f (InnerJoin l' r' e) = Inr n' \<Longrightarrow> Q (InnerJoin l r e) n'"
    and "\<And>l r l' r' n'. TransformUp l f = Inr l' \<Longrightarrow> TransformUp r f = Inr r' \<Longrightarrow>
           Q l l' \<Longrightarrow> Q r r' \<Longrightarrow> f (CrossJoin l' r') = Inr n' \<Longrightarrow> Q (CrossJoin l r) n'"
    and "\<And>l r l' r' n'. TransformUp l f = Inr l' \<Longrightarrow> TransformUp r f = Inr r' \<Longrightarrow>
           Q l l' \<Longrightarrow> Q r r' \<Longrightarrow> f (NaturalJoin l' r') = Inr n' \<Longrightarrow> Q (NaturalJoin l r) n'"
    and "\<And>a c c' n'. TransformUp c f = Inr c' \<Longrightarrow> Q c c' \<Longrightarrow> f (TableAlias a c') = Inr n' \<Longrightarrow>
           Q (TableAlias a c) n'"
    and "\<And>c c' n'. TransformUp c f = Inr c' \<Longrightarrow> Q c c' \<Longrightarrow> f (Describe c') = Inr n' \<Longrightarrow>
           Q (Describe c) n'"
    and "\<And>d c c' n'. TransformUp c f = Inr c' \<Longrightarrow> Q c c' \<Longrightarrow> f (DecoratedNode d c') = Inr n' \<Longrightarrow>
           Q (DecoratedNode d c) n'"
  shows "Q n n'"
  using assms(1)
proof (induction n arbitrary: n')
  case (UnresolvedTable nm)
  then show ?case using assms(2) by simp
next
  case (ResolvedTable t)
  then show ?case using assms(3) by simp
next
  case (Project ps c)
  from Project.prems obtain c' where c: "TransformUp c f = Inr c'" "f (Project ps c') = Inr n'"
    by (auto split: sum.splits)
  show ?case using c(1) Project.IH[OF c(1)] c(2) by (rule assms(4))
next
  case (Filter e c)
  from Filter.prems obtain c' where c: "TransformUp c f = Inr c'" "f (Filter e c') = Inr n'"
    by (auto split: sum.splits)
  show ?case using c(1) Filter.IH[OF c(1)] c(2) by (rule assms(5))
next
  case (GroupBy agg grp c)
  from GroupBy.prems obtain c' where c: "TransformUp c f = Inr c'"
    "f (GroupBy agg grp c') = Inr n'"
    by (auto split: sum.splits)
  show ?case using c(1) GroupBy.IH[OF c(1)] c(2) by (rule assms(6))
next
  case (Limit k c)
  from Limit.prems obtain c' where c: "TransformUp c f = Inr c'" "f (Limit k c') = Inr n'"
    by (auto split: sum.splits)
  show ?case using c(1) Limit.IH[OF c(1)] c(2) by (rule assms(7))
next
  case (InnerJoin l r e)
  from InnerJoin.prems obtain l' r' where c: "TransformUp l f = Inr l'"
    "TransformUp r f = Inr r'" "f (InnerJoin l' r' e) = Inr n'"
    by (auto split: sum.splits)
  show ?case
    using c(1,2) InnerJoin.IH(1)[OF c(1)] InnerJoin.IH(2)[OF c(2)] c(3) by (rule assms(8))
next
  case (CrossJoin l r)
  from CrossJoin.prems obtain l' r' where c: "TransformUp l f = Inr l'"
    "TransformUp r f = Inr r'" "f (CrossJoin l' r') = Inr n'"
    by (auto split: sum.splits)
  show ?case
    using c(1,2) CrossJoin.IH(1)[OF c(1)] CrossJoin.IH(2)[OF c(2)] c(3) by (rule assms(9))
next
  case (NaturalJoin l r)
  from NaturalJoin.prems obtain l' r' where c: "TransformUp l f = Inr l'"
    "TransformUp r f = Inr r'" "f (NaturalJoin l' r') = Inr n'"
    by (auto split: sum.splits)
  show ?case
    using c(1,2) NaturalJoin.IH(1)[OF c(1)] NaturalJoin.IH(2)[OF c(2)] c(3) by (rule assms(10))
next
  case (TableAlias a c)
  from TableAlias.prems obtain c' where c: "TransformUp c f = Inr c'"
    "f (TableAlias a c') = Inr n'"
    by (auto split: sum.splits)
  show ?case using c(1) TableAlias.IH[OF c(1)] c(2) by (rule assms(11))
next
  case (Describe c)
  from Describe.prems obtain c' where c: "TransformUp c f = Inr c'" "f (Describe c') = Inr n'"
    by (auto split: sum.splits)
  show ?case using c(1) Describe.IH[OF c(1)] c(2) by (rule assms(12))
next
  case (DecoratedNode d c)
  from DecoratedNode.prems obtain c' where c: "TransformUp c f = Inr c'"
    "f (DecoratedNode d c') = Inr n'"
    by (auto split: sum.splits)
  show ?case using c(1) DecoratedNode.IH[OF c(1)] c(2) by (rule assms(13))
qed

lemma expr_fields_fix: "expr_fields (fix_fields S e) = expr_fields e"
  by (induction e) (simp_all split: option.splits)


lemma fix_fields_idem: "fix_fields S (fix_fields S e) = fix_fields S e"
  by (induction e) (simp_all split: option.splits)

lemma splitConjunction_fix:
  "splitConjunction (fix_fields S e) = map (fix_fields S) (splitConjunction e)"
  by (induction e) (simp_all split: option.splits)

lemma pushable_fix: "pushable tbl (fix_fields S p) = pushable tbl p"
  by (simp add: pushable_def expr_fields_fix)

lemma handled_fix: "handled T (fix_fields S p) = handled T p"
  by (simp add: handled_def pushable_fix)

lemma splitConjunction_atoms:
  "p \<in> set (splitConjunction e) \<Longrightarrow> splitConjunction p = [p]"
  by (induction e) auto

lemma splitConjunction_foldl:
  "splitConjunction (foldl And c cs) = splitConjunction c @ concat (map splitConjunction cs)"
  by (induction cs arbitrary: c) simp_all

lemma concat_atoms:
  "\<forall>p \<in> set ps. splitConjunction p = [p] \<Longrightarrow> concat (map splitConjunction ps) = ps"
  by (induction ps) simp_all

lemma splitConjunction_JoinAnd:
  "ps \<noteq> [] \<Longrightarrow> \<forall>p \<in> set ps. splitConjunction p = [p] \<Longrightarrow> splitConjunction (JoinAnd ps) = ps"
  by (cases ps) (simp_all add: splitConjunction_foldl concat_atoms)

lemma expr_fields_split: "concat (map expr_fields (splitConjunction e)) = expr_fields e"
  by (induction e) simp_all

lemma expr_fields_foldl:
  "expr_fields (foldl And c cs) = expr_fields c @ concat (map expr_fields cs)"
  by (induction cs arbitrary: c) simp_all

lemma expr_fields_JoinAnd: "expr_fields (JoinAnd ps) = concat (map expr_fields ps)"
  by (cases ps) (simp_all add: expr_fields_foldl)





lemma table_fields_empty_iff:
  "(table_fields F tbl = []) = (tbl \<notin> fst ` set F)"
  by (auto simp: table_fields_def filter_empty_conv image_iff)

lemma image_fields_fix:
  "expr_fields ` fix_fields S ` X = expr_fields ` X"
  by (simp add: image_image expr_fields_fix)

lemma pushdown_node_Filter_cases:
  assumes "pushdown_node F P T (Filter e c) = Inr n'"
  shows "n' = Filter (fix_fields (Schema c) e) c \<or> n' = c \<or>
         (filter (\<lambda>p. \<not> handled T p) (splitConjunction e) \<noteq> [] \<and>
          n' = Filter (fix_fields (Schema c)
                 (JoinAnd (filter (\<lambda>p. \<not> handled T p) (splitConjunction e)))) c)"
  using assms by (auto simp: pushdown_node_def Let_def split: if_splits)

lemma pushdown_node_Project_cases:
  assumes "pushdown_node F P T (Project ps c) = Inr n'"
  shows "n' = c \<or> n' = Project (map (fix_fields (Schema c)) ps) c"
  using assms by (auto simp: pushdown_node_def Let_def split: if_splits)

lemma splitConjunction_rest:
  assumes "filter Q (splitConjunction e) \<noteq> []"
  shows "splitConjunction (fix_fields S (JoinAnd (filter Q (splitConjunction e)))) =
         map (fix_fields S) (filter Q (splitConjunction e))"
proof -
  have "\<forall>p \<in> set (filter Q (splitConjunction e)). splitConjunction p = [p]"
    using splitConjunction_atoms by auto
  then show ?thesis
    using assms by (simp add: splitConjunction_fix splitConjunction_JoinAnd)
qed

lemma expr_fields_rest:
  "set (expr_fields (JoinAnd (filter Q (splitConjunction e)))) \<subseteq> set (expr_fields e)"
proof -
  have "set (concat (map expr_fields (filter Q (splitConjunction e)))) \<subseteq>
      set (concat (map expr_fields (splitConjunction e)))"
    by auto
  then show ?thesis by (simp only: expr_fields_split expr_fields_JoinAnd)
qed

lemma pushdown_fields_shrink:
  assumes "TransformUp n (pushdown_node F P T) = Inr n'"
  shows "set (plan_fields n') \<subseteq> set (plan_fields n)"
  using assms
proof (induction rule: TransformUp_induct)
  case (ResolvedTable t n')
  then show ?case
    by (auto simp: pushdown_node_def pushdown_table_def Let_def split: if_splits)
next
  case (Project ps c c' n')
  then show ?case
    using pushdown_node_Project_cases[OF Project.hyps(2)] by (auto simp: expr_fields_fix)
next
  case (Filter e c c' n')
  then show ?case
    using pushdown_node_Filter_cases[OF Filter.hyps(2)]
      expr_fields_rest[of "\<lambda>p. \<not> handled T p" e]
    by (auto simp: expr_fields_fix simp del: JoinAnd.simps)
next
  case (GroupBy agg grp c c' n')
  then show ?case
    by (auto simp: pushdown_node_def Let_def expr_fields_fix)
next
  case (InnerJoin l r e l' r' n')
  then show ?case
    by (auto simp: pushdown_node_def expr_fields_fix)
qed (auto simp: pushdown_node_def)

lemma pushdown_predicates_shrink:
  assumes "TransformUp n (pushdown_node F P T) = Inr n'"
  shows "expr_fields ` set (plan_predicates n') \<subseteq> expr_fields ` set (plan_predicates n)"
  using assms
proof (induction rule: TransformUp_induct)
  case (ResolvedTable t n')
  then show ?case
    by (auto simp: pushdown_node_def pushdown_table_def Let_def split: if_splits)
next
  case (Project ps c c' n')
  then show ?case
    using pushdown_node_Project_cases[OF Project.hyps(2)] by auto
next
  case (Filter e c c' n')
  let ?rest = "filter (\<lambda>p. \<not> handled T p) (splitConjunction e)"
  from pushdown_node_Filter_cases[OF Filter.hyps(2)]
  consider (keep) "n' = Filter (fix_fields (Schema c') e) c'"
    | (drop) "n' = c'"
    | (part) "?rest \<noteq> []" "n' = Filter (fix_fields (Schema c') (JoinAnd ?rest)) c'"
    by blast
  then show ?case
  proof cases
    case keep
    have "expr_fields ` set (plan_predicates n') =
        expr_fields ` set (splitConjunction e) \<union> expr_fields ` set (plan_predicates c')"
      by (simp add: keep splitConjunction_fix image_Un image_fields_fix)
    then show ?thesis using Filter.IH by auto
  next
    case drop
    then show ?thesis using Filter.IH by auto
  next
    case part
    have "expr_fields ` set (plan_predicates n') =
        expr_fields ` set ?rest \<union> expr_fields ` set (plan_predicates c')"
      by (simp add: part(2) splitConjunction_rest[OF part(1)] image_Un image_fields_fix
          del: JoinAnd.simps)
    then show ?thesis using Filter.IH by auto
  qed
next
  case (GroupBy agg grp c c' n')
  then show ?case by (auto simp: pushdown_node_def Let_def)
next
  case (InnerJoin l r e l' r' n')
  then have "n' = InnerJoin l' r' (fix_fields (Schema (CrossJoin l' r')) e)"
    by (simp add: pushdown_node_def)
  then show ?case using InnerJoin.IH by (simp add: image_Un) blast
next
  case (CrossJoin l r l' r' n')
  then have "n' = CrossJoin l' r'" by (simp add: pushdown_node_def)
  then show ?case using CrossJoin.IH by (simp add: image_Un) blast
next
  case (NaturalJoin l r l' r' n')
  then have "n' = NaturalJoin l' r'" by (simp add: pushdown_node_def)
  then show ?case using NaturalJoin.IH by (simp add: image_Un) blast
qed (auto simp: pushdown_node_def)

lemma pushdown_table_targets:
  "set (plan_targets (pushdown_table F P t)) \<subseteq> {tname t}"
  by (auto simp: pushdown_table_def Let_def narrowable_def WithProjection_def WithFilters_def)

lemma pushdown_targets_shrink:
  assumes "TransformUp n (pushdown_node F P T) = Inr n'"
  shows "set (plan_targets n') \<subseteq> set (plan_targets n)"
  using assms
proof (induction rule: TransformUp_induct)
  case (ResolvedTable t n')
  then show ?case
    using pushdown_table_targets[of F P t]
    by (auto simp: pushdown_node_def split: if_splits)
next
  case (Project ps c c' n')
  then show ?case
    using pushdown_node_Project_cases[OF Project.hyps(2)] by auto
next
  case (Filter e c c' n')
  then show ?case
    using pushdown_node_Filter_cases[OF Filter.hyps(2)] by (auto simp del: JoinAnd.simps)
next
  case (GroupBy agg grp c c' n')
  then show ?case by (auto simp: pushdown_node_def Let_def)
next
  case (InnerJoin l r e l' r' n')
  then show ?case by (auto simp: pushdown_node_def)
qed (auto simp: pushdown_node_def)

lemma fix_fields_idem_comp: "fix_fields S \<circ> fix_fields S = fix_fields S"
  by (rule ext) (simp add: fix_fields_idem)

lemma pushdown_table_stable:
  assumes "\<And>tbl. table_fields F tbl = [] \<Longrightarrow> table_fields F' tbl = []"
    and "\<And>tbl. filter (pushable tbl) P = [] \<Longrightarrow> filter (pushable tbl) P' = []"
    and "narrowable t"
  shows "TransformUp (pushdown_table F P t) (pushdown_node F' P' T') = Inr (pushdown_table F P t)"
proof (cases "filter (pushable (tname t)) P = [] \<and> table_fields F (tname t) = []")
  case True
  then have "pushdown_table F P t = ResolvedTable t" "pushdown_table F' P' t = ResolvedTable t"
    using assms(1,2) by (simp_all add: pushdown_table_def)
  then show ?thesis using assms(3) by (simp add: pushdown_node_def)
next
  case False
  then show ?thesis
    by (auto simp: pushdown_table_def Let_def pushdown_node_def narrowable_def
        WithProjection_def WithFilters_def)
qed

lemma pushdown_node_stable:
  assumes c1: "\<And>tbl. table_fields F tbl = [] \<Longrightarrow> table_fields F' tbl = []"
    and c2: "\<And>tbl. filter (pushable tbl) P = [] \<Longrightarrow> filter (pushable tbl) P' = []"
    and c3: "\<And>p. handled T' p \<Longrightarrow> handled T p"
    and ch: "list_all (\<lambda>c. TransformUp c (pushdown_node F' P' T') = Inr c) (children m)"
    and out: "pushdown_node F P T m = Inr m'"
  shows "TransformUp m' (pushdown_node F' P' T') = Inr m'"
proof (cases m)
  case (ResolvedTable t)
  show ?thesis
  proof (cases "narrowable t")
    case True
    then have "m' = pushdown_table F P t"
      using out ResolvedTable by (simp add: pushdown_node_def)
    then show ?thesis using pushdown_table_stable[OF c1 c2 True] by simp
  next
    case False
    then show ?thesis using out ResolvedTable by (auto simp: pushdown_node_def)
  qed
next
  case (Project ps c)
  let ?ps = "map (fix_fields (Schema c)) ps"
  have c: "TransformUp c (pushdown_node F' P' T') = Inr c" using ch Project by simp
  have "m' = c \<or> (map expr_column ?ps \<noteq> Schema c \<and> m' = Project ?ps c)"
    using out Project by (auto simp: pushdown_node_def Let_def split: if_splits)
  then show ?thesis
    using c by (auto simp: pushdown_node_def Let_def fix_fields_idem fix_fields_idem_comp)
next
  case (Filter e c)
  let ?rest = "filter (\<lambda>p. \<not> handled T p) (splitConjunction e)"
  have c: "TransformUp c (pushdown_node F' P' T') = Inr c" using ch Filter by simp
  have unhandled: "filter (\<lambda>p. \<not> handled T' p) (map (fix_fields S) xs) = map (fix_fields S) xs"
    if "\<forall>p \<in> set xs. \<not> handled T p" for xs S
    using that c3 by (auto simp: filter_id_conv handled_fix)
  consider (keep) "?rest = splitConjunction e" "m' = Filter (fix_fields (Schema c) e) c"
    | (drop) "m' = c"
    | (part) "?rest \<noteq> []" "m' = Filter (fix_fields (Schema c) (JoinAnd ?rest)) c"
    using out Filter by (auto simp: pushdown_node_def Let_def split: if_splits)
  then show ?thesis
  proof cases
    case keep
    from keep(1) have "\<forall>p \<in> set (splitConjunction e). \<not> handled T p"
      by (simp add: filter_id_conv)
    then have "filter (\<lambda>p. \<not> handled T' p) (splitConjunction (fix_fields (Schema c) e)) =
        splitConjunction (fix_fields (Schema c) e)"
      using unhandled[of "splitConjunction e" "Schema c"] by (simp add: splitConjunction_fix)
    then show ?thesis
      using c \<open>m' = Filter (fix_fields (Schema c) e) c\<close>
      by (simp add: pushdown_node_def Let_def fix_fields_idem)
  next
    case drop
    then show ?thesis using c by simp
  next
    case part
    have "\<forall>p \<in> set ?rest. \<not> handled T p" by simp
    then have "filter (\<lambda>p. \<not> handled T' p)
          (splitConjunction (fix_fields (Schema c) (JoinAnd ?rest))) =
        splitConjunction (fix_fields (Schema c) (JoinAnd ?rest))"
      using unhandled[of ?rest "Schema c"] by (simp only: splitConjunction_rest[OF part(1)])
    then show ?thesis
      using c part(2)
      by (simp add: pushdown_node_def Let_def fix_fields_idem del: JoinAnd.simps)
  qed
next
  case (GroupBy agg grp c)
  then show ?thesis
    using ch out by (auto simp: pushdown_node_def fix_fields_idem)
next
  case (InnerJoin l r e)
  then show ?thesis
    using ch out by (auto simp: pushdown_node_def fix_fields_idem)
qed (use ch out in \<open>auto simp: pushdown_node_def\<close>)

lemma pushdown_stable:
  assumes c1: "\<And>tbl. table_fields F tbl = [] \<Longrightarrow> table_fields F' tbl = []"
    and c2: "\<And>tbl. filter (pushable tbl) P = [] \<Longrightarrow> filter (pushable tbl) P' = []"
    and c3: "\<And>p. handled T' p \<Longrightarrow> handled T p"
    and "TransformUp n (pushdown_node F P T) = Inr n'"
  shows "TransformUp n' (pushdown_node F' P' T') = Inr n'"
  using assms(4)
proof (induction rule: TransformUp_induct)
  case (UnresolvedTable nm n')
  show ?case using pushdown_node_stable[OF c1 c2 c3 _ UnresolvedTable.hyps] by simp
next
  case (ResolvedTable t n')
  show ?case using pushdown_node_stable[OF c1 c2 c3 _ ResolvedTable.hyps] by simp
next
  case (Project ps c c' n')
  show ?case using pushdown_node_stable[OF c1 c2 c3 _ Project.hyps(2)] Project.IH by simp
next
  case (Filter e c c' n')
  show ?case using pushdown_node_stable[OF c1 c2 c3 _ Filter.hyps(2)] Filter.IH by simp
next
  case (GroupBy agg grp c c' n')
  show ?case using pushdown_node_stable[OF c1 c2 c3 _ GroupBy.hyps(2)] GroupBy.IH by simp
next
  case (Limit k c c' n')
  show ?case using pushdown_node_stable[OF c1 c2 c3 _ Limit.hyps(2)] Limit.IH by simp
next
  case (InnerJoin l r e l' r' n')
  show ?case using pushdown_node_stable[OF c1 c2 c3 _ InnerJoin.hyps(3)] InnerJoin.IH by simp
next
  case (CrossJoin l r l' r' n')
  show ?case using pushdown_node_stable[OF c1 c2 c3 _ CrossJoin.hyps(3)] CrossJoin.IH by simp
next
  case (NaturalJoin l r l' r' n')
  show ?case using pushdown_node_stable[OF c1 c2 c3 _ NaturalJoin.hyps(3)] NaturalJoin.IH by simp
next
  case (TableAlias a c c' n')
  show ?case using pushdown_node_stable[OF c1 c2 c3 _ TableAlias.hyps(2)] TableAlias.IH by simp
next
  case (Describe c c' n')
  show ?case using pushdown_node_stable[OF c1 c2 c3 _ Describe.hyps(2)] Describe.IH by simp
next
  case (DecoratedNode d c c' n')
  show ?case
    using pushdown_node_stable[OF c1 c2 c3 _ DecoratedNode.hyps(2)] DecoratedNode.IH by simp
qed

lemma pushable_fields:
  "expr_fields p' = expr_fields p \<Longrightarrow> pushable tbl p' = pushable tbl p"
  by (simp add: pushable_def)

lemma pushdown_idempotent:
  assumes "pushdown_rule scope n = Inr n'"
  shows "pushdown_rule scope n' = Inr n'"
proof (cases "Resolved n")
  case False
  then show ?thesis using assms by (simp add: pushdown_rule_def)
next
  case True
  then have t: "TransformUp n (pushdown_node (plan_fields n) (plan_predicates n) (plan_targets n)) =
      Inr n'"
    using assms by (simp add: pushdown_rule_def)
  have c1: "table_fields (plan_fields n') tbl = []" if "table_fields (plan_fields n) tbl = []" for tbl
    using that pushdown_fields_shrink[OF t] by (auto simp: table_fields_empty_iff)
  have c2: "filter (pushable tbl) (plan_predicates n') = []"
    if a: "filter (pushable tbl) (plan_predicates n) = []" for tbl
  proof -
    have "\<not> pushable tbl p'" if "p' \<in> set (plan_predicates n')" for p'
    proof -
      from that pushdown_predicates_shrink[OF t] obtain p where
        p: "p \<in> set (plan_predicates n)" "expr_fields p' = expr_fields p" by auto
      then have "\<not> pushable tbl p" using a by (simp add: filter_empty_conv)
      then show ?thesis using pushable_fields[OF p(2)] by simp
    qed
    then show ?thesis by (simp add: filter_empty_conv)
  qed
  have c3: "handled (plan_targets n) p" if "handled (plan_targets n') p" for p
    using that pushdown_targets_shrink[OF t] by (auto simp: handled_def list_ex_iff)
  have "TransformUp n' (pushdown_node (plan_fields n') (plan_predicates n') (plan_targets n')) =
      Inr n'"
    using c1 c2 c3 t by (rule pushdown_stable)
  then show ?thesis by (simp add: pushdown_rule_def)
qed

text \<open>A table without the pushdown capability is left untouched.\<close>

lemma pushdown_incapable_untouched:
  "\<not> pushdown t \<Longrightarrow> pushdown_node F P T (ResolvedTable t) = Inr (ResolvedTable t)"
  by (simp add: pushdown_node_def narrowable_def)

section \<open>Properties of resolution errors\<close>































lemma Schema_mytable2:
  "Schema (ResolvedTable mytable2) =
     [\<lparr>Name = ''i2'', Type = Int32, Source = ''mytable2'', Nullable = False\<rparr>]"
  by (simp add: Schema_def Table_Schema_def mytable2_def)


section \<open>Idempotence of the rules\<close>

lemmas pushdown_defs =
  pushdown_rule_def pushdown_node_def pushdown_table_def table_fields_def pushable_def
  handled_def narrowable_def WithProjection_def WithFilters_def list_string_def Schema_def
  Table_Schema_def project_columns_def




section \<open>Scenarios of the test suite\<close>

text \<open>
  The expectations of \<^verbatim>\<open>TestAnalyzer_Analyze\<close>, \<^verbatim>\<open>TestMixInnerAndNaturalJoins\<close> and
  the rule-count tests, replayed on the default analyzer.
\<close>

lemma Eval_loop_reaches_fixed:
  "reaches_ceiling rs scope k n \<Longrightarrow> passes_result rs scope k n = Inr n1 \<Longrightarrow>
   evalOnce rs scope n1 False = Inr (n1, False) \<Longrightarrow> k < K \<Longrightarrow>
   Eval_loop rs scope K n p = (Inr n1, Suc (p + k))"
proof (induction k arbitrary: n K p)
  case 0
  then show ?case by (cases K) simp_all
next
  case (Suc k)
  from Suc.prems(1) obtain n2 where 1: "evalOnce rs scope n False = Inr (n2, True)"
    and 2: "reaches_ceiling rs scope k n2"
    by (auto split: sum.splits)
  from Suc.prems(2) 1 have 3: "passes_result rs scope k n2 = Inr n1" by simp
  from Suc.prems(4) obtain K' where K: "K = Suc K'" "k < K'" by (cases K) auto
  have "Eval_loop rs scope K' n2 (Suc p) = (Inr n1, Suc (Suc p + k))"
    using 2 3 Suc.prems(3) K(2) by (rule Suc.IH)
  then show ?case using 1 K(1) by simp
qed

lemma Analyze_default_result:
  assumes "reaches_ceiling (DefaultRules ctx) scope k n"
    and "passes_result (DefaultRules ctx) scope k n = Inr n1"
    and "evalOnce (DefaultRules ctx) scope n1 False = Inr (n1, False)"
    and "k < maxAnalysisIterations"
    and "pushdown_rule scope n1 = Inr n2"
  shows "Analyze (NewDefault ctx) scope n = Inr n2"
proof -
  let ?pd = "[\<lparr>rule_name = ''pushdown'', Apply = pushdown_rule\<rparr>]"
  note a = Eval_loop_reaches_fixed[OF assms(1,2,3,4), of "Suc 0"]
  have "\<exists>p. Eval_loop ?pd scope maxAnalysisIterations n1 (Suc (Suc 0 + k)) = (Inr n2, p)"
  proof (cases "n2 = n1")
    case True
    then have "evalOnce ?pd scope n1 False = Inr (n1, False)" using assms(5) by simp
    then show ?thesis
      using Eval_loop_fixed[of ?pd scope n1 maxAnalysisIterations] True
      by (simp add: maxAnalysisIterations_def)
  next
    case False
    then have 1: "evalOnce ?pd scope n1 False = Inr (n2, True)" using assms(5) by simp
    have "pushdown_rule scope n2 = Inr n2" using assms(5) by (rule pushdown_idempotent)
    then have 2: "evalOnce ?pd scope n2 False = Inr (n2, False)" by simp
    have "1 < maxAnalysisIterations" by (simp add: maxAnalysisIterations_def)
    with 1 2 show ?thesis using Eval_loop_settles[of ?pd scope n1 n2 maxAnalysisIterations] by blast
  qed
  then obtain p where b: "Eval_loop ?pd scope maxAnalysisIterations n1 (Suc (Suc 0 + k)) = (Inr n2, p)"
    by blast
  show ?thesis using a b by (rule Analyze_default_batches)
qed

lemma scenario_table:
  "Analyze (NewDefault mydb_ctx) [] (UnresolvedTable ''mytable'') = Inr (ResolvedTable mytable)"
proof -
  have 1: "reaches_ceiling (DefaultRules mydb_ctx) [] (Suc 0) (UnresolvedTable ''mytable'') \<and>
      passes_result (DefaultRules mydb_ctx) [] (Suc 0) (UnresolvedTable ''mytable'') =
        Inr (ResolvedTable mytable)"
    by (simp add: rule_defs)
  have 2: "evalOnce (DefaultRules mydb_ctx) [] (ResolvedTable mytable) False =
      Inr (ResolvedTable mytable, False)"
    by (simp add: rule_defs)
  have 3: "pushdown_rule [] (ResolvedTable mytable) = Inr (ResolvedTable mytable)"
    by (rule pushdown_bare_table)
  show ?thesis
    using conjunct1[OF 1] conjunct2[OF 1] 2 _ 3
    by (rule Analyze_default_result) (simp add: maxAnalysisIterations_def)
qed

lemma scenario_resolved_table:
  "Analyze (NewDefault mydb_ctx) [] (ResolvedTable mytable) = Inr (ResolvedTable mytable)"
proof -
  have 1: "reaches_ceiling (DefaultRules mydb_ctx) [] 0 (ResolvedTable mytable) \<and>
      passes_result (DefaultRules mydb_ctx) [] 0 (ResolvedTable mytable) =
        Inr (ResolvedTable mytable)"
    by simp
  have 2: "evalOnce (DefaultRules mydb_ctx) [] (ResolvedTable mytable) False =
      Inr (ResolvedTable mytable, False)"
    by (simp add: rule_defs)
  have 3: "pushdown_rule [] (ResolvedTable mytable) = Inr (ResolvedTable mytable)"
    by (rule pushdown_bare_table)
  show ?thesis
    using conjunct1[OF 1] conjunct2[OF 1] 2 _ 3
    by (rule Analyze_default_result) (simp add: maxAnalysisIterations_def)
qed

lemma scenario_missing_table:
  "Analyze (NewDefault mydb_ctx) [] (UnresolvedTable ''nonexistant'') =
     Inl (TableNotFound ''nonexistant'')"
proof -
  have "evalOnce (DefaultRules mydb_ctx) [] (UnresolvedTable ''nonexistant'') False =
      Inl (TableNotFound ''nonexistant'')"
    by (simp add: rule_defs)
  then show ?thesis by (rule Analyze_default_first_pass_error)
qed

lemma scenario_missing_column:
  "Analyze (NewDefault mydb_ctx) []
     (Project [UnresolvedColumn ''o''] (UnresolvedTable ''mytable'')) =
     Inl (ColumnNotFound ''o'')"
proof -
  have "evalOnce (DefaultRules mydb_ctx) []
      (Project [UnresolvedColumn ''o''] (UnresolvedTable ''mytable'')) False =
      Inl (ColumnNotFound ''o'')"
    by (simp add: rule_defs mytable_fields)
  then show ?thesis by (rule Analyze_default_first_pass_error)
qed

lemma scenario_select_column:
  "Analyze (NewDefault mydb_ctx) [] (Project [UnresolvedColumn ''i''] (UnresolvedTable ''mytable'')) =
     Inr (DecoratedNode ''Projected table access on [i]''
            (ResolvedTable (WithProjection mytable [''i''])))"
proof -
  let ?n = "Project [UnresolvedColumn ''i''] (UnresolvedTable ''mytable'')"
  let ?n1 = "Project [GetField 0 Int32 ''mytable'' ''i'' False] (ResolvedTable mytable)"
  let ?n2 = "DecoratedNode ''Projected table access on [i]''
               (ResolvedTable (WithProjection mytable [''i'']))"
  have 1: "reaches_ceiling (DefaultRules mydb_ctx) [] (Suc 0) ?n \<and>
      passes_result (DefaultRules mydb_ctx) [] (Suc 0) ?n = Inr ?n1"
    by (simp add: rule_defs mytable_fields)
  have 2: "evalOnce (DefaultRules mydb_ctx) [] ?n1 False = Inr (?n1, False)"
    by (simp add: rule_defs mytable_fields)
  have 3: "pushdown_rule [] ?n1 = Inr ?n2"
    by (simp add: pushdown_defs mytable_fields)
  show ?thesis
    using conjunct1[OF 1] conjunct2[OF 1] 2 _ 3
    by (rule Analyze_default_result) (simp add: maxAnalysisIterations_def)
qed

lemma scenario_describe:
  "Analyze (NewDefault mydb_ctx) [] (Describe (UnresolvedTable ''mytable'')) =
     Inr (Describe (ResolvedTable mytable))"
proof -
  let ?n = "Describe (UnresolvedTable ''mytable'')"
  let ?n1 = "Describe (ResolvedTable mytable)"
  have 1: "reaches_ceiling (DefaultRules mydb_ctx) [] (Suc 0) ?n \<and>
      passes_result (DefaultRules mydb_ctx) [] (Suc 0) ?n = Inr ?n1"
    by (simp add: rule_defs)
  have 2: "evalOnce (DefaultRules mydb_ctx) [] ?n1 False = Inr (?n1, False)"
    by (simp add: rule_defs)
  have 3: "pushdown_rule [] ?n1 = Inr ?n1"
    by (simp add: pushdown_defs mytable_fields)
  show ?thesis
    using conjunct1[OF 1] conjunct2[OF 1] 2 _ 3
    by (rule Analyze_default_result) (simp add: maxAnalysisIterations_def)
qed

lemma scenario_select_star:
  "Analyze (NewDefault mydb_ctx) [] (Project [Star []] (UnresolvedTable ''mytable'')) =
     Inr (DecoratedNode ''Projected table access on [i t]''
            (ResolvedTable (WithProjection mytable [''i'', ''t''])))"
proof -
  let ?n = "Project [Star []] (UnresolvedTable ''mytable'')"
  let ?n1 = "Project [GetField 0 Int32 ''mytable'' ''i'' False, GetField 1 Text ''mytable'' ''t'' False]
               (ResolvedTable mytable)"
  let ?n2 = "DecoratedNode ''Projected table access on [i t]''
               (ResolvedTable (WithProjection mytable [''i'', ''t'']))"
  have 1: "reaches_ceiling (DefaultRules mydb_ctx) [] (Suc 0) ?n \<and>
      passes_result (DefaultRules mydb_ctx) [] (Suc 0) ?n = Inr ?n1"
    by (simp add: rule_defs mytable_fields)
  have 2: "evalOnce (DefaultRules mydb_ctx) [] ?n1 False = Inr (?n1, False)"
    by (simp add: rule_defs mytable_fields)
  have 3: "pushdown_rule [] ?n1 = Inr ?n2"
    by (simp add: pushdown_defs mytable_fields)
  show ?thesis
    using conjunct1[OF 1] conjunct2[OF 1] 2 _ 3
    by (rule Analyze_default_result) (simp add: maxAnalysisIterations_def)
qed

lemma scenario_nested_star:
  "Analyze (NewDefault mydb_ctx) []
     (Project [Star []] (Project [Star []] (UnresolvedTable ''mytable''))) =
     Inr (DecoratedNode ''Projected table access on [i t]''
            (ResolvedTable (WithProjection mytable [''i'', ''t''])))"
proof -
  let ?n = "Project [Star []] (Project [Star []] (UnresolvedTable ''mytable''))"
  let ?ps = "[GetField 0 Int32 ''mytable'' ''i'' False, GetField 1 Text ''mytable'' ''t'' False]"
  let ?n1 = "Project ?ps (Project ?ps (ResolvedTable mytable))"
  let ?n2 = "DecoratedNode ''Projected table access on [i t]''
               (ResolvedTable (WithProjection mytable [''i'', ''t'']))"
  have 1: "reaches_ceiling (DefaultRules mydb_ctx) [] (Suc 0) ?n \<and>
      passes_result (DefaultRules mydb_ctx) [] (Suc 0) ?n = Inr ?n1"
    by (simp add: rule_defs mytable_fields)
  have 2: "evalOnce (DefaultRules mydb_ctx) [] ?n1 False = Inr (?n1, False)"
    by (simp add: rule_defs mytable_fields)
  have 3: "pushdown_rule [] ?n1 = Inr ?n2"
    by (simp add: pushdown_defs mytable_fields)
  show ?thesis
    using conjunct1[OF 1] conjunct2[OF 1] 2 _ 3
    by (rule Analyze_default_result) (simp add: maxAnalysisIterations_def)
qed

lemma scenario_alias:
  "Analyze (NewDefault mydb_ctx) []
     (Project [Alias ''foo'' (UnresolvedColumn ''i'')] (UnresolvedTable ''mytable'')) =
     Inr (Project [Alias ''foo'' (GetField 0 Int32 ''mytable'' ''i'' False)]
            (DecoratedNode ''Projected table access on [i]''
               (ResolvedTable (WithProjection mytable [''i'']))))"
proof -
  let ?n = "Project [Alias ''foo'' (UnresolvedColumn ''i'')] (UnresolvedTable ''mytable'')"
  let ?n1 = "Project [Alias ''foo'' (GetField 0 Int32 ''mytable'' ''i'' False)] (ResolvedTable mytable)"
  let ?n2 = "Project [Alias ''foo'' (GetField 0 Int32 ''mytable'' ''i'' False)]
            (DecoratedNode ''Projected table access on [i]''
               (ResolvedTable (WithProjection mytable [''i''])))"
  have 1: "reaches_ceiling (DefaultRules mydb_ctx) [] (Suc 0) ?n \<and>
      passes_result (DefaultRules mydb_ctx) [] (Suc 0) ?n = Inr ?n1"
    by (simp add: rule_defs mytable_fields)
  have 2: "evalOnce (DefaultRules mydb_ctx) [] ?n1 False = Inr (?n1, False)"
    by (simp add: rule_defs mytable_fields)
  have 3: "pushdown_rule [] ?n1 = Inr ?n2"
    by (simp add: pushdown_defs mytable_fields)
  show ?thesis
    using conjunct1[OF 1] conjunct2[OF 1] 2 _ 3
    by (rule Analyze_default_result) (simp add: maxAnalysisIterations_def)
qed

lemma scenario_select_where:
  "Analyze (NewDefault mydb_ctx) []
     (Project [UnresolvedColumn ''i'']
        (Filter (Equals (UnresolvedColumn ''i'') (Literal (VInt 1) Int32))
           (UnresolvedTable ''mytable''))) =
     Inr (DecoratedNode ''Filtered table access on [mytable.i = 1]''
           (DecoratedNode ''Projected table access on [i]''
             (ResolvedTable
               (WithProjection
                 (WithFilters mytable
                    [Equals (GetField 0 Int32 ''mytable'' ''i'' False) (Literal (VInt 1) Int32)])
                 [''i'']))))"
proof -
  let ?c = "Equals (GetField 0 Int32 ''mytable'' ''i'' False) (Literal (VInt 1) Int32)"
  let ?n = "Project [UnresolvedColumn ''i'']
        (Filter (Equals (UnresolvedColumn ''i'') (Literal (VInt 1) Int32))
           (UnresolvedTable ''mytable''))"
  let ?n1 = "Project [GetField 0 Int32 ''mytable'' ''i'' False] (Filter ?c (ResolvedTable mytable))"
  let ?n2 = "DecoratedNode ''Filtered table access on [mytable.i = 1]''
           (DecoratedNode ''Projected table access on [i]''
             (ResolvedTable (WithProjection (WithFilters mytable [?c]) [''i''])))"
  have 1: "reaches_ceiling (DefaultRules mydb_ctx) [] (Suc 0) ?n \<and>
      passes_result (DefaultRules mydb_ctx) [] (Suc 0) ?n = Inr ?n1"
    by (simp add: rule_defs mytable_fields)
  have 2: "evalOnce (DefaultRules mydb_ctx) [] ?n1 False = Inr (?n1, False)"
    by (simp add: rule_defs mytable_fields)
  have 3: "pushdown_rule [] ?n1 = Inr ?n2"
    by (simp add: pushdown_defs mytable_fields nat_string.simps)
  show ?thesis
    using conjunct1[OF 1] conjunct2[OF 1] 2 _ 3
    by (rule Analyze_default_result) (simp add: maxAnalysisIterations_def)
qed

lemma mytable2_fields:
  "tschema mytable2 = [\<lparr>Name = ''i2'', Type = Int32, Source = ''mytable2'', Nullable = False\<rparr>]"
  "projection mytable2 = None" "pushdown mytable2" "tname mytable2 = ''mytable2''"
  "filters mytable2 = []"
  by (simp_all add: mytable2_def)

lemma scenario_cross_join:
  "Analyze (NewDefault mydb_ctx) []
     (Project [UnresolvedColumn ''i'', UnresolvedColumn ''i2'']
        (CrossJoin (UnresolvedTable ''mytable'') (UnresolvedTable ''mytable2''))) =
     Inr (CrossJoin
            (DecoratedNode ''Projected table access on [i]''
               (ResolvedTable (WithProjection mytable [''i''])))
            (DecoratedNode ''Projected table access on [i2]''
               (ResolvedTable (WithProjection mytable2 [''i2'']))))"
proof -
  let ?n = "Project [UnresolvedColumn ''i'', UnresolvedColumn ''i2'']
        (CrossJoin (UnresolvedTable ''mytable'') (UnresolvedTable ''mytable2''))"
  let ?n1 = "Project [GetField 0 Int32 ''mytable'' ''i'' False,
                      GetField 2 Int32 ''mytable2'' ''i2'' False]
        (CrossJoin (ResolvedTable mytable) (ResolvedTable mytable2))"
  let ?n2 = "CrossJoin
            (DecoratedNode ''Projected table access on [i]''
               (ResolvedTable (WithProjection mytable [''i''])))
            (DecoratedNode ''Projected table access on [i2]''
               (ResolvedTable (WithProjection mytable2 [''i2''])))"
  have 1: "reaches_ceiling (DefaultRules mydb_ctx) [] (Suc 0) ?n \<and>
      passes_result (DefaultRules mydb_ctx) [] (Suc 0) ?n = Inr ?n1"
    by (simp add: rule_defs mytable_fields mytable2_fields)
  have 2: "evalOnce (DefaultRules mydb_ctx) [] ?n1 False = Inr (?n1, False)"
    by (simp add: rule_defs mytable_fields mytable2_fields)
  have 3: "pushdown_rule [] ?n1 = Inr ?n2"
    by (simp add: pushdown_defs mytable_fields mytable2_fields)
  show ?thesis
    using conjunct1[OF 1] conjunct2[OF 1] 2 _ 3
    by (rule Analyze_default_result) (simp add: maxAnalysisIterations_def)
qed

lemma scenario_limit:
  "Analyze (NewDefault mydb_ctx) []
     (Limit 1 (Project [UnresolvedColumn ''i''] (UnresolvedTable ''mytable''))) =
     Inr (Limit 1 (DecoratedNode ''Projected table access on [i]''
            (ResolvedTable (WithProjection mytable [''i'']))))"
proof -
  let ?n = "Limit 1 (Project [UnresolvedColumn ''i''] (UnresolvedTable ''mytable''))"
  let ?n1 = "Limit 1 (Project [GetField 0 Int32 ''mytable'' ''i'' False] (ResolvedTable mytable))"
  let ?n2 = "Limit 1 (DecoratedNode ''Projected table access on [i]''
            (ResolvedTable (WithProjection mytable [''i''])))"
  have 1: "reaches_ceiling (DefaultRules mydb_ctx) [] (Suc 0) ?n \<and>
      passes_result (DefaultRules mydb_ctx) [] (Suc 0) ?n = Inr ?n1"
    by (simp add: rule_defs mytable_fields)
  have 2: "evalOnce (DefaultRules mydb_ctx) [] ?n1 False = Inr (?n1, False)"
    by (simp add: rule_defs mytable_fields)
  have 3: "pushdown_rule [] ?n1 = Inr ?n2"
    by (simp add: pushdown_defs mytable_fields)
  show ?thesis
    using conjunct1[OF 1] conjunct2[OF 1] 2 _ 3
    by (rule Analyze_default_result) (simp add: maxAnalysisIterations_def)
qed

text \<open>
  The scenario of the specification: \<^verbatim>\<open>SELECT * FROM mytable WHERE i = 1\<close> yields a
  table carrying both the filter and the projection \<^verbatim>\<open>[i, t]\<close>.
\<close>

lemma scenario_star_where:
  "Analyze (NewDefault mydb_ctx) []
     (Project [Star []]
        (Filter (Equals (UnresolvedColumn ''i'') (Literal (VInt 1) Int32))
           (UnresolvedTable ''mytable''))) =
     Inr (DecoratedNode ''Filtered table access on [mytable.i = 1]''
           (DecoratedNode ''Projected table access on [i t]''
             (ResolvedTable
               (WithProjection
                 (WithFilters mytable
                    [Equals (GetField 0 Int32 ''mytable'' ''i'' False) (Literal (VInt 1) Int32)])
                 [''i'', ''t'']))))"
proof -
  let ?c = "Equals (GetField 0 Int32 ''mytable'' ''i'' False) (Literal (VInt 1) Int32)"
  let ?n = "Project [Star []]
        (Filter (Equals (UnresolvedColumn ''i'') (Literal (VInt 1) Int32))
           (UnresolvedTable ''mytable''))"
  let ?na = "Project [Star []] (Filter ?c (ResolvedTable mytable))"
  let ?n1 = "Project [GetField 0 Int32 ''mytable'' ''i'' False,
                      GetField 1 Text ''mytable'' ''t'' False] (Filter ?c (ResolvedTable mytable))"
  let ?n2 = "DecoratedNode ''Filtered table access on [mytable.i = 1]''
           (DecoratedNode ''Projected table access on [i t]''
             (ResolvedTable (WithProjection (WithFilters mytable [?c]) [''i'', ''t''])))"
  have pa: "evalOnce (DefaultRules mydb_ctx) [] ?n False = Inr (?na, True)"
    by (simp add: rule_defs mytable_fields)
  have pb: "evalOnce (DefaultRules mydb_ctx) [] ?na False = Inr (?n1, True)"
    by (simp add: rule_defs mytable_fields)
  have 1: "reaches_ceiling (DefaultRules mydb_ctx) [] (Suc (Suc 0)) ?n \<and>
      passes_result (DefaultRules mydb_ctx) [] (Suc (Suc 0)) ?n = Inr ?n1"
    by (simp add: pa pb del: evalOnce.simps)
  have 2: "evalOnce (DefaultRules mydb_ctx) [] ?n1 False = Inr (?n1, False)"
    by (simp add: rule_defs mytable_fields)
  have 3: "pushdown_rule [] ?n1 = Inr ?n2"
    by (simp add: pushdown_defs mytable_fields nat_string.simps)
  show ?thesis
    using conjunct1[OF 1] conjunct2[OF 1] 2 _ 3
    by (rule Analyze_default_result) (simp add: maxAnalysisIterations_def)
qed

lemma scenario_add_rule:
  "countRules (Build (AddPostAnalyzeRule nm f (NewBuilder ctx))) = countRules (NewDefault ctx) + 1"
  "countRules (Build (AddPreValidationRule nm f (NewBuilder ctx))) = countRules (NewDefault ctx) + 1"
  "countRules (Build (AddPostValidationRule nm f (NewBuilder ctx))) = countRules (NewDefault ctx) + 1"
  by (simp_all add: Build_def NewDefault_def NewBuilder_def AddPostAnalyzeRule_def
      AddPreValidationRule_def AddPostValidationRule_def)

lemma mix_fields:
  "tschema mix_table = [\<lparr>Name = ''i'', Type = Int32, Source = ''mytable'', Nullable = False\<rparr>,
                \<lparr>Name = ''f'', Type = Float64, Source = ''mytable'', Nullable = False\<rparr>,
                \<lparr>Name = ''t'', Type = Text, Source = ''mytable'', Nullable = False\<rparr>]"
  "tschema mix_table2 = [\<lparr>Name = ''i2'', Type = Int32, Source = ''mytable2'', Nullable = False\<rparr>,
                \<lparr>Name = ''f2'', Type = Float64, Source = ''mytable2'', Nullable = False\<rparr>,
                \<lparr>Name = ''t2'', Type = Text, Source = ''mytable2'', Nullable = False\<rparr>]"
  "tschema mix_table3 = [\<lparr>Name = ''i'', Type = Int32, Source = ''mytable3'', Nullable = False\<rparr>,
                \<lparr>Name = ''f2'', Type = Float64, Source = ''mytable3'', Nullable = False\<rparr>,
                \<lparr>Name = ''t3'', Type = Text, Source = ''mytable3'', Nullable = False\<rparr>]"
  "projection mix_table = None" "pushdown mix_table" "tname mix_table = ''mytable''"
  "filters mix_table = []"
  "projection mix_table2 = None" "pushdown mix_table2" "tname mix_table2 = ''mytable2''"
  "filters mix_table2 = []"
  "projection mix_table3 = None" "pushdown mix_table3" "tname mix_table3 = ''mytable3''"
  "filters mix_table3 = []"
  by (simp_all add: mix_table_def mix_table2_def mix_table3_def)

lemmas mix_defs =
  DefaultRules_def resolveTables_def resolveTables_node_def LookupTable_def mix_ctx_def
  resolveNaturalJoins_def resolveNaturalJoins_node_def resolveStar_def resolveStar_node_def
  expandStars_def resolveColumns_def resolveColumns_node_def resolve_ref_def column_matches_def
  Schema_def Table_Schema_def field_of_def

lemma evalOnce_default:
  assumes "resolveTables ctx scope n = Inr n1" and "resolveNaturalJoins scope n1 = Inr n2"
    and "resolveStar n2 = Inr n3" and "resolveColumns scope n3 = Inr n4"
  shows "evalOnce (DefaultRules ctx) scope n False =
         Inr (n4, ((n1 \<noteq> n \<or> n2 \<noteq> n1) \<or> n3 \<noteq> n2) \<or> n4 \<noteq> n3)"
  using assms by (simp add: DefaultRules_def)

lemma scenario_mix_joins:
  "Analyze (NewDefault mix_ctx) []
     (Project [Star []]
        (NaturalJoin
           (InnerJoin (UnresolvedTable ''mytable'') (UnresolvedTable ''mytable2'')
              (Equals (UnresolvedQualifiedColumn ''mytable'' ''i'')
                      (UnresolvedQualifiedColumn ''mytable2'' ''i2'')))
           (UnresolvedTable ''mytable3''))) =
     Inr (Project [GetField 0 Int32 ''mytable'' ''i'' False,
                   GetField 3 Float64 ''mytable2'' ''f2'' False,
                   GetField 1 Float64 ''mytable'' ''f'' False,
                   GetField 2 Text ''mytable'' ''t'' False,
                   GetField 4 Int32 ''mytable2'' ''i2'' False,
                   GetField 5 Text ''mytable2'' ''t2'' False,
                   GetField 6 Text ''mytable3'' ''t3'' False]
            (InnerJoin
               (InnerJoin
                  (DecoratedNode ''Projected table access on [i f t]''
                     (ResolvedTable (WithProjection mix_table [''i'', ''f'', ''t''])))
                  (DecoratedNode ''Projected table access on [f2 i2 t2]''
                     (ResolvedTable (WithProjection mix_table2 [''f2'', ''i2'', ''t2''])))
                  (Equals (GetField 0 Int32 ''mytable'' ''i'' False)
                          (GetField 4 Int32 ''mytable2'' ''i2'' False)))
               (DecoratedNode ''Projected table access on [t3 i f2]''
                  (ResolvedTable (WithProjection mix_table3 [''t3'', ''i'', ''f2''])))
               (And (Equals (GetField 0 Int32 ''mytable'' ''i'' False)
                            (GetField 7 Int32 ''mytable3'' ''i'' False))
                    (Equals (GetField 3 Float64 ''mytable2'' ''f2'' False)
                            (GetField 8 Float64 ''mytable3'' ''f2'' False)))))"
proof -
  let ?n = "Project [Star []]
        (NaturalJoin
           (InnerJoin (UnresolvedTable ''mytable'') (UnresolvedTable ''mytable2'')
              (Equals (UnresolvedQualifiedColumn ''mytable'' ''i'')
                      (UnresolvedQualifiedColumn ''mytable2'' ''i2'')))
           (UnresolvedTable ''mytable3''))"
  let ?l = "InnerJoin (ResolvedTable mix_table) (ResolvedTable mix_table2)
           (Equals (GetField 0 Int32 ''mytable'' ''i'' False) (GetField 3 Int32 ''mytable2'' ''i2'' False))"
  let ?na = "Project [Star []] (NaturalJoin ?l (ResolvedTable mix_table3))"
  let ?inner = "Project [GetField 0 Int32 ''mytable'' ''i'' False,
            GetField 4 Float64 ''mytable2'' ''f2'' False,
            GetField 1 Float64 ''mytable'' ''f'' False,
            GetField 2 Text ''mytable'' ''t'' False,
            GetField 3 Int32 ''mytable2'' ''i2'' False,
            GetField 5 Text ''mytable2'' ''t2'' False,
            GetField 8 Text ''mytable3'' ''t3'' False]
     (InnerJoin ?l (ResolvedTable mix_table3)
        (And (Equals (GetField 0 Int32 ''mytable'' ''i'' False) (GetField 6 Int32 ''mytable3'' ''i'' False))
             (Equals (GetField 4 Float64 ''mytable2'' ''f2'' False) (GetField 7 Float64 ''mytable3'' ''f2'' False))))"
  let ?n1 = "Project [GetField 0 Int32 ''mytable'' ''i'' False,
                   GetField 1 Float64 ''mytable2'' ''f2'' False,
                   GetField 2 Float64 ''mytable'' ''f'' False,
                   GetField 3 Text ''mytable'' ''t'' False,
                   GetField 4 Int32 ''mytable2'' ''i2'' False,
                   GetField 5 Text ''mytable2'' ''t2'' False,
                   GetField 6 Text ''mytable3'' ''t3'' False] ?inner"
  have pa: "evalOnce (DefaultRules mix_ctx) [] ?n False = Inr (?na, True)"
    by (simp add: mix_defs mix_fields)
  have e: "resolveNaturalJoins [] ?na = Inr (Project [Star []] ?inner)"
    by (simp add: resolveNaturalJoins_def resolveNaturalJoins_node_def mix_expand)
  have s: "resolveStar (Project [Star []] ?inner) = Inr ?n1"
    by (simp add: resolveStar_def resolveStar_node_def expandStars_def Schema_def field_of_def)
  have t: "resolveTables mix_ctx [] ?na = Inr ?na"
    by (simp add: resolveTables_def resolveTables_node_def)
  have c: "resolveColumns [] ?n1 = Inr ?n1"
    by (simp add: resolveColumns_resolved)
  have pb: "evalOnce (DefaultRules mix_ctx) [] ?na False = Inr (?n1, True)"
    using evalOnce_default[OF t e s c] by simp
  have 1: "reaches_ceiling (DefaultRules mix_ctx) [] (Suc (Suc 0)) ?n \<and>
      passes_result (DefaultRules mix_ctx) [] (Suc (Suc 0)) ?n = Inr ?n1"
    by (simp add: pa pb del: evalOnce.simps)
  have r: "Resolved ?n1" by simp
  have rs: "resolveStar ?n1 = Inr ?n1"
    unfolding resolveStar_def using r by (rule TransformUp_resolved)
  have 2: "evalOnce (DefaultRules mix_ctx) [] ?n1 False = Inr (?n1, False)"
    using evalOnce_default[OF resolveTables_resolved[OF r, of mix_ctx "[]"]
        resolveNaturalJoins_resolved[OF r, of "[]"] rs resolveColumns_resolved[OF r, of "[]"]]
    by simp
  have 3: "pushdown_rule [] ?n1 = Inr
      (Project [GetField 0 Int32 ''mytable'' ''i'' False,
                   GetField 3 Float64 ''mytable2'' ''f2'' False,
                   GetField 1 Float64 ''mytable'' ''f'' False,
                   GetField 2 Text ''mytable'' ''t'' False,
                   GetField 4 Int32 ''mytable2'' ''i2'' False,
                   GetField 5 Text ''mytable2'' ''t2'' False,
                   GetField 6 Text ''mytable3'' ''t3'' False]
            (InnerJoin
               (InnerJoin
                  (DecoratedNode ''Projected table access on [i f t]''
                     (ResolvedTable (WithProjection mix_table [''i'', ''f'', ''t''])))
                  (DecoratedNode ''Projected table access on [f2 i2 t2]''
                     (ResolvedTable (WithProjection mix_table2 [''f2'', ''i2'', ''t2''])))
                  (Equals (GetField 0 Int32 ''mytable'' ''i'' False)
                          (GetField 4 Int32 ''mytable2'' ''i2'' False)))
               (DecoratedNode ''Projected table access on [t3 i f2]''
                  (ResolvedTable (WithProjection mix_table3 [''t3'', ''i'', ''f2''])))
               (And (Equals (GetField 0 Int32 ''mytable'' ''i'' False)
                            (GetField 7 Int32 ''mytable3'' ''i'' False))
                    (Equals (GetField 3 Float64 ''mytable2'' ''f2'' False)
                            (GetField 8 Float64 ''mytable3'' ''f2'' False)))))"
    by (simp add: pushdown_defs mix_fields)
  show ?thesis
    using conjunct1[OF 1] conjunct2[OF 1] 2 _ 3
    by (rule Analyze_default_result) (simp add: maxAnalysisIterations_def)
qed

end
